theory Spec2Isabelle
  imports Complex_Main "HOL-Library.Log_Nat" "HOL-Library.Word"
begin

section \<open>Numbers\<close>

subsection \<open>Floating-point values and their comparisons\<close>

text \<open>
  A C++ \<^verbatim>\<open>float\<close> or \<^verbatim>\<open>double\<close> is a NaN, an infinity or a finite value; a finite
  value is the real number it denotes. The comparison operators are exact and false
  whenever an operand is NaN.
\<close>

datatype float = NaN | MInf | Fin real | PInf

text \<open>\<^verbatim>\<open>a < b\<close>\<close>

fun flt :: "float \<Rightarrow> float \<Rightarrow> bool" where
  "flt (Fin a) (Fin b) = (a < b)"
| "flt MInf (Fin b) = True"
| "flt MInf PInf = True"
| "flt (Fin a) PInf = True"
| "flt _ _ = False"

text \<open>\<^verbatim>\<open>a <= b\<close>\<close>

fun fle :: "float \<Rightarrow> float \<Rightarrow> bool" where
  "fle (Fin a) (Fin b) = (a \<le> b)"
| "fle NaN _ = False"
| "fle _ NaN = False"
| "fle MInf _ = True"
| "fle _ PInf = True"
| "fle _ _ = False"

text \<open>\<^verbatim>\<open>a > b\<close> and \<^verbatim>\<open>a >= b\<close>\<close>

definition fgt :: "float \<Rightarrow> float \<Rightarrow> bool" where
  "fgt a b = flt b a"

definition fge :: "float \<Rightarrow> float \<Rightarrow> bool" where
  "fge a b = fle b a"

text \<open>
  \<^verbatim>\<open>std::max(a, b)\<close> is \<^verbatim>\<open>(a < b) ? b : a\<close> and \<^verbatim>\<open>std::min(a, b)\<close> is
  \<^verbatim>\<open>(b < a) ? b : a\<close>: with a NaN in either place the first argument comes back.
\<close>

definition std_max :: "float \<Rightarrow> float \<Rightarrow> float" where
  "std_max a b = (if flt a b then b else a)"

definition std_min :: "float \<Rightarrow> float \<Rightarrow> float" where
  "std_min a b = (if flt b a then b else a)"

subsection \<open>Rounding to a binary format\<close>

text \<open>
  The value \<open>m * 2 ^ e\<close> of a binary floating-point number is kept as the pair
  \<open>(m, e)\<close>. Conversions and arithmetic round the exact result to the nearest value
  with \<open>p\<close> significant bits, ties to the even significand (\<open>p = 24\<close> for
  \<^verbatim>\<open>float\<close>, \<open>p = 53\<close> for \<^verbatim>\<open>double\<close>). Every value computed below is
  non-negative and far inside the exponent range of its format, so neither overflow
  nor subnormal numbers arise.
\<close>

type_synonym dyadic = "int \<times> int"

definition dval :: "dyadic \<Rightarrow> real" where
  "dval v = of_int (fst v) * 2 powi (snd v)"

text \<open>The integer nearest to \<open>n / d\<close>, ties to even (\<open>0 \<le> n\<close>, \<open>0 < d\<close>).\<close>

definition rne :: "int \<Rightarrow> int \<Rightarrow> int" where
  "rne n d =
     (let q = n div d; r = n mod d
      in if 2 * r < d then q
         else if d < 2 * r then q + 1
         else if even q then q else q + 1)"

text \<open>The fraction \<open>(n / d) / 2 ^ s\<close> as numerator and denominator.\<close>

definition scaled :: "int \<Rightarrow> int \<Rightarrow> int \<Rightarrow> int \<times> int" where
  "scaled n d s = (if 0 \<le> s then (n, d * 2 ^ nat s) else (n * 2 ^ nat (- s), d))"

text \<open>The exponent \<open>e\<close> with \<open>2 ^ e \<le> n / d < 2 ^ (e + 1)\<close> (\<open>0 < n\<close>, \<open>0 < d\<close>).\<close>

definition binade :: "int \<Rightarrow> int \<Rightarrow> int" where
  "binade n d =
     (let k = bitlen n - bitlen d
      in if snd (scaled n d k) \<le> fst (scaled n d k) then k else k - 1)"

definition round_ratio :: "nat \<Rightarrow> int \<Rightarrow> int \<Rightarrow> dyadic" where
  "round_ratio p n d =
     (if n = 0 then (0, 0)
      else let s = binade n d - (int p - 1)
           in (rne (fst (scaled n d s)) (snd (scaled n d s)), s))"

text \<open>\<^verbatim>\<open>a / b\<close> in \<^verbatim>\<open>double\<close>, for operands that are non-negative integers, \<open>b > 0\<close>.\<close>

definition double_div :: "int \<Rightarrow> int \<Rightarrow> dyadic" where
  "double_div a b = round_ratio 53 a b"

text \<open>\<^verbatim>\<open>v * b\<close> in \<^verbatim>\<open>double\<close>, for a non-negative \<open>v\<close> and a non-negative integer \<open>b\<close>.\<close>

definition double_mult :: "dyadic \<Rightarrow> int \<Rightarrow> dyadic" where
  "double_mult v b =
     round_ratio 53 (fst (scaled (fst v * b) 1 (- snd v))) (snd (scaled (fst v * b) 1 (- snd v)))"

text \<open>The integral part of a non-negative value (conversion to an integer truncates).\<close>

definition trunc :: "dyadic \<Rightarrow> int" where
  "trunc v = (if 0 \<le> snd v then fst v * 2 ^ nat (snd v) else fst v div 2 ^ nat (- snd v))"

text \<open>
  \<^verbatim>\<open>static_cast<uint8_t>(v)\<close> of a non-negative \<^verbatim>\<open>double\<close>: the integral part, and
  undefined behaviour (\<open>None\<close>) when that does not fit into eight bits.
\<close>

definition cast_uint8 :: "dyadic \<Rightarrow> 8 word option" where
  "cast_uint8 v = (if trunc v \<le> 255 then Some (word_of_int (trunc v)) else None)"

text \<open>\<^verbatim>\<open>static_cast<float>(n)\<close> of an \<^verbatim>\<open>int\<close>.\<close>

definition float_of_int :: "int \<Rightarrow> float" where
  "float_of_int n =
     (if n < 0 then Fin (- dval (round_ratio 24 (- n) 1)) else Fin (dval (round_ratio 24 n 1)))"

text \<open>
  The literal \<^verbatim>\<open>0.1\<close> is a \<^verbatim>\<open>double\<close>: the nearest one to a tenth, which is
  \<open>3602879701896397 / 2 ^ 55\<close>, a little above a tenth. The literals \<^verbatim>\<open>0.0f\<close> and
  \<^verbatim>\<open>0.5\<close> are exact.
\<close>

definition lit_0_1 :: real where
  "lit_0_1 = 3602879701896397 / 2 ^ 55"

text \<open>
  The finite values of a \<^verbatim>\<open>float\<close> (binary32): a significand below \<open>2 ^ 24\<close> in
  magnitude, scaled by a power of two between \<open>2 ^ -149\<close> and \<open>2 ^ 104\<close>.
\<close>

definition binary32 :: "real \<Rightarrow> bool" where
  "binary32 r \<longleftrightarrow> (\<exists>m e :: int. \<bar>m\<bar> < 2 ^ 24 \<and> - 149 \<le> e \<and> e \<le> 104 \<and> r = of_int m * 2 powi e)"

text \<open>The values of a \<^verbatim>\<open>float\<close>: NaN, the infinities and the finite values of binary32.\<close>

definition is_float32 :: "float \<Rightarrow> bool" where
  "is_float32 v = (case v of Fin r \<Rightarrow> binary32 r | _ \<Rightarrow> True)"

section \<open>Data\<close>

text \<open>
  \<^verbatim>\<open>BoTSORT.cpp\<close> includes \<^verbatim>\<open>BoTSORT.h\<close> and \<^verbatim>\<open>matching.h\<close>, which are not part of
  the sources at hand, and so the declarations of its types are missing. Each type
  below has the fields that \<^verbatim>\<open>BoTSORT.cpp\<close> reads and writes, under their names in
  the source; what else it has comes from the data model of the specification.
\<close>

text \<open>\<^verbatim>\<open>cv::Rect_<float>\<close>, the type of \<^verbatim>\<open>bbox_tlwh\<close> (lines 55 to 58 and 201).\<close>

record Rect =
  rect_x :: float
  rect_y :: float
  rect_width :: float
  rect_height :: float

type_synonym FeatureVector = "float list"

text \<open>
  Modelled from the spec: the struct \<^verbatim>\<open>Detection\<close>, whose declaration is missing
  (sections 3 and 6). \<^verbatim>\<open>BoTSORT.cpp\<close> uses \<^verbatim>\<open>bbox_tlwh\<close>, \<^verbatim>\<open>confidence\<close> and
  \<^verbatim>\<open>class_id\<close>.
\<close>

record Detection =
  bbox_tlwh :: Rect
  confidence :: float
  class_id :: int
  embedding :: "FeatureVector option"

text \<open>
  Modelled from the spec: the enumeration \<^verbatim>\<open>TrackState\<close> and the class \<^verbatim>\<open>Track\<close>,
  whose declarations are missing (section 3). \<^verbatim>\<open>BoTSORT.cpp\<close> names the states
  \<^verbatim>\<open>Tracked\<close> and \<^verbatim>\<open>Lost\<close> and reads \<^verbatim>\<open>track_id\<close>, \<^verbatim>\<open>state\<close> and
  \<^verbatim>\<open>is_activated\<close>; \<^verbatim>\<open>track_id\<close> is the key of a \<^verbatim>\<open>std::map<int, bool>\<close>.
\<close>

datatype TrackState = New | Tracked | Lost | Removed

record Track =
  track_id :: int
  state :: TrackState
  is_activated :: bool
  tlwh :: "float list"
  score :: float
  track_class_id :: int
  curr_feat :: "FeatureVector option"
  mean :: "float list"
  covariance :: "float list"
  start_frame :: nat
  frame_id :: nat
  tracklet_len :: nat

text \<open>
  \<^verbatim>\<open>cv::Mat\<close>, the type of a frame: its size (two \<^verbatim>\<open>int\<close>s that are never negative)
  and its pixels, which the tracker itself never looks at.
\<close>

record Mat =
  cols :: int
  rows :: int
  pixels :: nat

text \<open>A default-constructed \<^verbatim>\<open>cv::Mat\<close> is empty.\<close>

definition Mat_default :: Mat where
  "Mat_default = \<lparr>cols = 0, rows = 0, pixels = 0\<rparr>"

type_synonym HomographyMatrix = "float list"

text \<open>
  Modelled from the spec: the type \<^verbatim>\<open>CostMatrix\<close> of \<^verbatim>\<open>matching.h\<close>, whose declaration
  is missing; a dense matrix with its shape, row by row (sections 4.4 and 9).
\<close>

record CostMatrix =
  mrows :: nat
  mcols :: nat
  coeffs :: "float list"

text \<open>A default-constructed \<^verbatim>\<open>CostMatrix\<close> has no rows and no columns.\<close>

definition CostMatrix_default :: CostMatrix where
  "CostMatrix_default = \<lparr>mrows = 0, mcols = 0, coeffs = []\<rparr>"

text \<open>
  Modelled from the spec: the struct \<^verbatim>\<open>AssociationData\<close>, whose declaration is missing
  (section 4.5). \<^verbatim>\<open>BoTSORT.cpp\<close> reads \<^verbatim>\<open>matches\<close>, a vector of pairs of indices,
  and \<^verbatim>\<open>unmatched_track_indices\<close>, and stores an element of the latter in an
  \<^verbatim>\<open>int\<close> (line 149).
\<close>

record AssociationData =
  matches :: "(int \<times> int) list"
  unmatched_track_indices :: "int list"
  unmatched_det_indices :: "int list"

text \<open>The Kalman filter shared by all tracks: line 29 makes it from a time step.\<close>

record KalmanFilter =
  kf_dt :: float

text \<open>The motion-compensation backend: the method it was made for and its own state.\<close>

record GlobalMotionCompensation =
  gmc_method_name :: string
  gmc_state :: nat

subsection \<open>Memory\<close>

text \<open>
  The tracker works on \<^verbatim>\<open>Track *\<close>. A pointer is an address; \<open>objs\<close> gives the
  \<open>Track\<close> an address holds, and \<^verbatim>\<open>new Track(...)\<close> takes the next unused address
  \<open>brk\<close>. Nothing in \<^verbatim>\<open>BoTSORT.cpp\<close> ever deletes a \<open>Track\<close>.
\<close>

type_synonym addr = nat

record memory =
  objs :: "addr \<Rightarrow> Track"
  brk :: addr

definition new_Track :: "Track \<Rightarrow> memory \<Rightarrow> addr \<times> memory" where
  "new_Track t mem = (brk mem, mem\<lparr>objs := (objs mem)(brk mem := t), brk := Suc (brk mem)\<rparr>)"

subsection \<open>The tracker object\<close>

text \<open>
  The members that \<^verbatim>\<open>BoTSORT.cpp\<close> uses; a member \<^verbatim>\<open>_name\<close> of the class is the
  field \<open>m_name\<close>. The constructor takes \<^verbatim>\<open>track_buffer\<close> and \<^verbatim>\<open>frame_rate\<close> as
  \<^verbatim>\<open>uint8_t\<close> and converts the buffer size to \<^verbatim>\<open>uint8_t\<close>. The declaration of the
  frame counter is missing: it is taken as an unsigned integer of a fixed width, the
  number of its bits being a parameter of the model (\<open>frame_id_bits\<close>, below). The
  field \<open>m_frame_id\<close> holds the value of the counter, which \<open>track\<close> increments
  modulo two to the power of that width (\<open>next_frame_id\<close>).
\<close>

record BoTSORT =
  m_track_high_thresh :: float
  m_new_track_thresh :: float
  m_track_buffer :: "8 word"
  m_match_thresh :: float
  m_proximity_thresh :: float
  m_appearance_thresh :: float
  m_frame_rate :: "8 word"
  m_lambda :: float
  m_frame_id :: nat
  m_buffer_size :: "8 word"
  m_max_time_lost :: "8 word"
  m_kalman_filter :: KalmanFilter
  m_reid_enabled :: bool
  m_gmc_algo :: GlobalMotionCompensation
  m_tracked_tracks :: "addr list"
  m_lost_tracks :: "addr list"

text \<open>Every pointer the tracker holds points to a \<open>Track\<close> that has been allocated.\<close>

definition wf_state :: "BoTSORT \<Rightarrow> memory \<Rightarrow> bool" where
  "wf_state bt mem \<longleftrightarrow>
     (\<forall>a \<in> set (m_tracked_tracks bt) \<union> set (m_lost_tracks bt). a < brk mem)"

subsection \<open>What the tracker calls\<close>

text \<open>
  \<^verbatim>\<open>BoTSORT.cpp\<close> calls the \<open>Track\<close> class, the cost builders and the assignment
  solver of \<^verbatim>\<open>matching.h\<close>, the Re-ID model, the motion-compensation backend and
  OpenCV. None of them is in the sources at hand: they are parameters of the model,
  and every theorem about \<open>track\<close> holds for whatever they compute.
  A function that takes \<^verbatim>\<open>std::vector<Track *>\<close> and only reads the tracks gets their
  values; one that changes tracks through the pointers maps the old contents of the
  memory to the new ones. \<^verbatim>\<open>fuse_score\<close> and \<^verbatim>\<open>fuse_motion\<close>, whose results lines
  111 and 116 do not use, are called for their effect on the matrix they are given:
  each maps that matrix to what it is after the call (to itself, should the function
  leave its argument alone). \<^verbatim>\<open>linear_assignment\<close> fills the \<^verbatim>\<open>AssociationData\<close> it
  is given, which is always a fresh one. \<open>frame_id_bits\<close> is the width of the
  member \<^verbatim>\<open>_frame_id\<close>, which the missing header declares.
\<close>

datatype exn = cv_Exception

record ops =
  Track_ctor :: "float list \<Rightarrow> float \<Rightarrow> int \<Rightarrow> FeatureVector option \<Rightarrow> Track"
  Track_multi_predict :: "addr list \<Rightarrow> KalmanFilter \<Rightarrow> (addr \<Rightarrow> Track) \<Rightarrow> (addr \<Rightarrow> Track)"
  Track_multi_gmc :: "addr list \<Rightarrow> HomographyMatrix \<Rightarrow> (addr \<Rightarrow> Track) \<Rightarrow> (addr \<Rightarrow> Track)"
  Track_update :: "Track \<Rightarrow> KalmanFilter \<Rightarrow> Track \<Rightarrow> nat \<Rightarrow> Track"
  Track_re_activate :: "Track \<Rightarrow> KalmanFilter \<Rightarrow> Track \<Rightarrow> nat \<Rightarrow> bool \<Rightarrow> Track"
  Track_mark_lost :: "Track \<Rightarrow> Track"
  Mat_roi :: "Mat \<Rightarrow> Rect \<Rightarrow> exn + Mat"
  ReIDModel_extract_features :: "Mat \<Rightarrow> FeatureVector"
  GMC_apply :: "GlobalMotionCompensation \<Rightarrow> Mat \<Rightarrow> Detection list
                 \<Rightarrow> HomographyMatrix \<times> GlobalMotionCompensation"
  iou_distance :: "Track list \<Rightarrow> Track list \<Rightarrow> CostMatrix"
  embedding_distance :: "Track list \<Rightarrow> Track list \<Rightarrow> CostMatrix"
  fuse_score :: "CostMatrix \<Rightarrow> Track list \<Rightarrow> CostMatrix"
  fuse_motion :: "KalmanFilter \<Rightarrow> CostMatrix \<Rightarrow> Track list \<Rightarrow> Track list \<Rightarrow> bool \<Rightarrow> float
                   \<Rightarrow> CostMatrix"
  fuse_iou_with_emb :: "CostMatrix \<Rightarrow> CostMatrix \<Rightarrow> float \<Rightarrow> float \<Rightarrow> CostMatrix"
  linear_assignment :: "CostMatrix \<Rightarrow> float \<Rightarrow> AssociationData"
  frame_id_bits :: nat

section \<open>The tracker\<close>

subsection \<open>Construction\<close>

text \<open>The arguments of the constructor.\<close>

record config =
  model_weights :: "string option"
  fp16_inference :: bool
  track_high_thresh :: float
  new_track_thresh :: float
  track_buffer :: "8 word"
  match_thresh :: float
  proximity_thresh :: float
  appearance_thresh :: float
  gmc_method :: string
  frame_rate :: "8 word"
  lambda :: float

text \<open>
  Line 27: \<^verbatim>\<open>static_cast<uint8_t>(_frame_rate / 30.0 * _track_buffer)\<close>. Both members
  convert to \<^verbatim>\<open>double\<close> exactly; the division and then the multiplication round.
\<close>

definition buffer_size :: "8 word \<Rightarrow> 8 word \<Rightarrow> 8 word option" where
  "buffer_size rate buffer = cast_uint8 (double_mult (double_div (uint rate) 30) (uint buffer))"

text \<open>Line 29: \<^verbatim>\<open>1.0 / _frame_rate\<close> in \<^verbatim>\<open>double\<close>; dividing by zero gives infinity.\<close>

definition KalmanFilter_ctor :: "8 word \<Rightarrow> KalmanFilter" where
  "KalmanFilter_ctor rate =
     \<lparr>kf_dt = (if rate = 0 then PInf else Fin (dval (double_div 1 (uint rate))))\<rparr>"

text \<open>
  The constructor (lines 4 to 44). The two track lists start empty. The result is
  \<open>None\<close> where the conversion of line 27 is undefined.
\<close>

definition BoTSORT_ctor :: "config \<Rightarrow> BoTSORT option" where
  "BoTSORT_ctor c =
     (case buffer_size (frame_rate c) (track_buffer c) of
        None \<Rightarrow> None
      | Some b \<Rightarrow>
          Some \<lparr>m_track_high_thresh = track_high_thresh c,
                m_new_track_thresh = new_track_thresh c,
                m_track_buffer = track_buffer c,
                m_match_thresh = match_thresh c,
                m_proximity_thresh = proximity_thresh c,
                m_appearance_thresh = appearance_thresh c,
                m_frame_rate = frame_rate c,
                m_lambda = lambda c,
                m_frame_id = 0,
                m_buffer_size = b,
                m_max_time_lost = b,
                m_kalman_filter = KalmanFilter_ctor (frame_rate c),
                m_reid_enabled = (model_weights c \<noteq> None),
                m_gmc_algo = \<lparr>gmc_method_name = gmc_method c, gmc_state = 0\<rparr>,
                m_tracked_tracks = [],
                m_lost_tracks = []\<rparr>)"

subsection \<open>Detections\<close>

text \<open>Lines 55 to 58: the bounding box of a detection is clamped in place.\<close>

definition clamp_detection :: "Mat \<Rightarrow> Detection \<Rightarrow> Detection" where
  "clamp_detection frame detection =
     detection\<lparr>bbox_tlwh :=
       \<lparr>rect_x = std_max (Fin 0) (rect_x (bbox_tlwh detection)),
        rect_y = std_max (Fin 0) (rect_y (bbox_tlwh detection)),
        rect_width = std_min (float_of_int (cols frame - 1)) (rect_width (bbox_tlwh detection)),
        rect_height = std_min (float_of_int (rows frame - 1)) (rect_height (bbox_tlwh detection))\<rparr>\<rparr>"

text \<open>
  Lines 201 to 205. The patch is cut out of the frame, which throws when the box does
  not lie inside the frame; the features are then taken from \<^verbatim>\<open>patch_resized\<close>, a
  matrix that was never filled.
\<close>

definition extract_features :: "ops \<Rightarrow> Mat \<Rightarrow> Rect \<Rightarrow> exn + FeatureVector" where
  "extract_features ops frame bbox =
     (case Mat_roi ops frame bbox of
        Inl e \<Rightarrow> Inl e
      | Inr patch \<Rightarrow> Inr (ReIDModel_extract_features ops Mat_default))"

text \<open>Lines 69 to 73: where the confidence of a detection sends its tracklet.\<close>

datatype conf_class = High | Low | Dropped

definition classify :: "float \<Rightarrow> float \<Rightarrow> conf_class" where
  "classify thresh conf =
     (if fge conf thresh then High
      else if fgt conf (Fin lit_0_1) \<and> flt conf thresh then Low
      else Dropped)"

text \<open>
  The state of the loop of lines 54 to 74: the memory, the caller's vector as far as it
  has been visited, and the two lists of tracklets.
\<close>

record det_loop =
  dl_mem :: memory
  dl_visited :: "Detection list"
  dl_high :: "addr list"
  dl_low :: "addr list"

definition push_tracklet :: "float \<Rightarrow> Track \<Rightarrow> Detection \<Rightarrow> det_loop \<Rightarrow> det_loop" where
  "push_tracklet thresh t d' st =
     (let tracklet = fst (new_Track t (dl_mem st));
          st' = st\<lparr>dl_mem := snd (new_Track t (dl_mem st)), dl_visited := dl_visited st @ [d']\<rparr>
      in case classify thresh (confidence d') of
           High \<Rightarrow> st'\<lparr>dl_high := dl_high st' @ [tracklet]\<rparr>
         | Low \<Rightarrow> st'\<lparr>dl_low := dl_low st' @ [tracklet]\<rparr>
         | Dropped \<Rightarrow> st')"

text \<open>The \<^verbatim>\<open>tlwh\<close> vector of line 61.\<close>

definition tlwh_of :: "Rect \<Rightarrow> float list" where
  "tlwh_of r = [rect_x r, rect_y r, rect_width r, rect_height r]"

text \<open>
  The loop itself. An exception of \<open>extract_features\<close> leaves the loop (and
  \<open>track\<close>) with the current detection already clamped and the later ones untouched.
\<close>

fun detection_loop ::
  "ops \<Rightarrow> BoTSORT \<Rightarrow> Mat \<Rightarrow> Detection list \<Rightarrow> det_loop \<Rightarrow> det_loop \<times> exn option" where
  "detection_loop ops bt frame [] st = (st, None)"
| "detection_loop ops bt frame (detection # rest) st =
     (let d' = clamp_detection frame detection
      in if m_reid_enabled bt then
           (case extract_features ops frame (bbox_tlwh d') of
              Inl e \<Rightarrow> (st\<lparr>dl_visited := dl_visited st @ d' # rest\<rparr>, Some e)
            | Inr emb \<Rightarrow>
                detection_loop ops bt frame rest
                  (push_tracklet (m_track_high_thresh bt)
                     (Track_ctor ops (tlwh_of (bbox_tlwh d')) (confidence d') (class_id d') (Some emb))
                     d' st))
         else
           detection_loop ops bt frame rest
             (push_tracklet (m_track_high_thresh bt)
                (Track_ctor ops (tlwh_of (bbox_tlwh d')) (confidence d') (class_id d') None)
                d' st))"

subsection \<open>Merging two track lists\<close>

text \<open>
  Lines 207 to 224. \<open>exists\<close> is the \<^verbatim>\<open>std::map<int, bool>\<close> of the track ids seen so
  far; the first loop takes every track of list a, the second those tracks of list b
  whose id has not been seen.
\<close>

fun merge_list_a ::
  "(addr \<Rightarrow> Track) \<Rightarrow> addr list \<Rightarrow> (int \<rightharpoonup> bool) \<times> addr list \<Rightarrow> (int \<rightharpoonup> bool) \<times> addr list" where
  "merge_list_a h [] acc = acc"
| "merge_list_a h (track # rest) (exists, merged_tracks_list) =
     merge_list_a h rest (exists(track_id (h track) \<mapsto> True), merged_tracks_list @ [track])"

fun merge_list_b ::
  "(addr \<Rightarrow> Track) \<Rightarrow> addr list \<Rightarrow> (int \<rightharpoonup> bool) \<times> addr list \<Rightarrow> (int \<rightharpoonup> bool) \<times> addr list" where
  "merge_list_b h [] acc = acc"
| "merge_list_b h (track # rest) (exists, merged_tracks_list) =
     (if exists (track_id (h track)) = None
      then merge_list_b h rest (exists(track_id (h track) \<mapsto> True), merged_tracks_list @ [track])
      else merge_list_b h rest (exists, merged_tracks_list))"

definition merge_track_lists :: "(addr \<Rightarrow> Track) \<Rightarrow> addr list \<Rightarrow> addr list \<Rightarrow> addr list" where
  "merge_track_lists h tracks_list_a tracks_list_b =
     snd (merge_list_b h tracks_list_b (merge_list_a h tracks_list_a (Map.empty, [])))"

subsection \<open>The loops over the result of an association\<close>

text \<open>
  An index taken from the solver's result is used with \<^verbatim>\<open>operator[]\<close>: outside the
  vector the behaviour is undefined, which the loops below report as \<open>None\<close>.
\<close>

definition in_range :: "int \<Rightarrow> 'a list \<Rightarrow> bool" where
  "in_range i xs \<longleftrightarrow> 0 \<le> i \<and> i < int (length xs)"

record assoc_loop =
  al_objs :: "addr \<Rightarrow> Track"
  al_activated :: "addr list"
  al_refind :: "addr list"

text \<open>
  Lines 131 to 140, and again lines 169 to 178: the body of the loop over the
  matches, for the track and the detection of one match.
\<close>

definition update_step :: "ops \<Rightarrow> KalmanFilter \<Rightarrow> nat \<Rightarrow> addr \<Rightarrow> addr \<Rightarrow> assoc_loop \<Rightarrow> assoc_loop" where
  "update_step ops kf fid track detection st =
     (let h = al_objs st
      in if state (h track) = Tracked then
           st\<lparr>al_objs := h(track := Track_update ops (h track) kf (h detection) fid),
              al_activated := al_activated st @ [track]\<rparr>
         else
           st\<lparr>al_objs := h(track := Track_re_activate ops (h track) kf (h detection) fid False),
              al_refind := al_refind st @ [track]\<rparr>)"

text \<open>Lines 127 to 141, and again lines 165 to 179.\<close>

fun update_matched ::
  "ops \<Rightarrow> KalmanFilter \<Rightarrow> nat \<Rightarrow> addr list \<Rightarrow> addr list \<Rightarrow> (int \<times> int) list \<Rightarrow> assoc_loop
    \<Rightarrow> assoc_loop option" where
  "update_matched ops kf fid trks dets [] st = Some st"
| "update_matched ops kf fid trks dets (m # ms) st =
     (if in_range (fst m) trks \<and> in_range (snd m) dets
      then update_matched ops kf fid trks dets ms
             (update_step ops kf fid (trks ! nat (fst m)) (dets ! nat (snd m)) st)
      else None)"

text \<open>Lines 147 to 154.\<close>

fun unmatched_tracked ::
  "(addr \<Rightarrow> Track) \<Rightarrow> addr list \<Rightarrow> int list \<Rightarrow> addr list \<Rightarrow> addr list option" where
  "unmatched_tracked h pool [] acc = Some acc"
| "unmatched_tracked h pool (track_idx # rest) acc =
     (if in_range track_idx pool then
        (let track = pool ! nat track_idx
         in if state (h track) = Tracked
            then unmatched_tracked h pool rest (acc @ [track])
            else unmatched_tracked h pool rest acc)
      else None)"

text \<open>Lines 182 to 189.\<close>

fun mark_unmatched_lost ::
  "ops \<Rightarrow> addr list \<Rightarrow> int list \<Rightarrow> (addr \<Rightarrow> Track) \<times> addr list
    \<Rightarrow> ((addr \<Rightarrow> Track) \<times> addr list) option" where
  "mark_unmatched_lost ops trks [] acc = Some acc"
| "mark_unmatched_lost ops trks (idx # rest) (h, lost) =
     (if in_range idx trks then
        (let track = trks ! nat idx
         in if state (h track) \<noteq> Lost
            then mark_unmatched_lost ops trks rest (h(track := Track_mark_lost ops (h track)), lost @ [track])
            else mark_unmatched_lost ops trks rest (h, lost))
      else None)"

subsection \<open>One frame\<close>

text \<open>Lines 107 to 120: the cost matrix of the first association.\<close>

definition first_association_cost ::
  "ops \<Rightarrow> BoTSORT \<Rightarrow> Track list \<Rightarrow> Track list \<Rightarrow> CostMatrix" where
  "first_association_cost ops bt pool dets =
     (let iou_dists = fuse_score ops (iou_distance ops pool dets) dets;
          raw_emd_dist =
            (if m_reid_enabled bt
             then fuse_motion ops (m_kalman_filter bt) (embedding_distance ops pool dets)
                    pool dets False (m_lambda bt)
             else CostMatrix_default)
      in fuse_iou_with_emb ops iou_dists raw_emd_dist
           (m_proximity_thresh bt) (m_appearance_thresh bt))"

text \<open>
  What a call that returns leaves behind: the value returned, the tracker, the memory
  and the caller's vector after the call, the local variables of \<open>track\<close> by
  their names in the source, and the contents of the memory at three points on the
  way: after the loop over the detections (line 76), before the loop of the first
  association (line 127), in \<open>after_first\<close>, after it (line 141), and after the loop
  of the second association (line 179).
  \<open>line_158_value\<close> is what the call of \<^verbatim>\<open>iou_distance\<close> in line 158 returns.
\<close>

record frame_trace =
  return_value :: "Track list"
  tracker_after :: BoTSORT
  memory_after :: memory
  detections_after :: "Detection list"
  objs_after_detections :: "addr \<Rightarrow> Track"
  detections_high_conf :: "addr list"
  detections_low_conf :: "addr list"
  unconfirmed_tracks :: "addr list"
  tracked_tracks :: "addr list"
  tracks_pool :: "addr list"
  distances_first_association :: CostMatrix
  first_associations :: AssociationData
  objs_before_first :: "addr \<Rightarrow> Track"
  after_first :: assoc_loop
  unmatched_tracks_after_1st_association :: "addr list"
  line_158_value :: CostMatrix
  iou_dists_second :: CostMatrix
  second_associations :: AssociationData
  objs_after_second :: "addr \<Rightarrow> Track"
  activated_tracks :: "addr list"
  refind_tracks :: "addr list"
  lost_tracks :: "addr list"

text \<open>
  A call of \<open>track\<close> returns, or leaves with an exception (the tracker, the memory and
  the caller's vector are then as the exception found them), or runs into undefined
  behaviour.
\<close>

datatype outcome =
  Returned frame_trace
| Threw exn BoTSORT memory "Detection list"
| Undefined_behaviour

text \<open>
  Lines 104 to 198, from the first association on. Line 158 computes the IoU distances
  of the second association and drops them; \<^verbatim>\<open>iou_dists_second\<close> is still as its
  declaration in line 157 made it when line 162 hands it to the solver. Line 198
  returns an empty vector.
\<close>

definition associate ::
  "ops \<Rightarrow> BoTSORT \<Rightarrow> memory \<Rightarrow> Detection list \<Rightarrow> addr list \<Rightarrow> addr list \<Rightarrow> addr list \<Rightarrow> addr list
    \<Rightarrow> addr list \<Rightarrow> (addr \<Rightarrow> Track) \<Rightarrow> outcome" where
  "associate ops bt mem dets high low unconfirmed tracked pool h =
     (let dist1 = first_association_cost ops bt (map h pool) (map h high);
          first = linear_assignment ops dist1 (m_match_thresh bt);
          kf = m_kalman_filter bt;
          fid = m_frame_id bt
      in case update_matched ops kf fid pool high (matches first)
                \<lparr>al_objs = h, al_activated = [], al_refind = []\<rparr> of
           None \<Rightarrow> Undefined_behaviour
         | Some st1 \<Rightarrow>
        (case unmatched_tracked (al_objs st1) pool (unmatched_track_indices first) [] of
           None \<Rightarrow> Undefined_behaviour
         | Some unmatched \<Rightarrow>
        (let dropped = iou_distance ops (map (al_objs st1) unmatched) (map (al_objs st1) low);
             second = linear_assignment ops CostMatrix_default (Fin (1 / 2))
         in case update_matched ops kf fid unmatched low (matches second) st1 of
              None \<Rightarrow> Undefined_behaviour
            | Some st2 \<Rightarrow>
           (case mark_unmatched_lost ops unmatched (unmatched_track_indices second)
                   (al_objs st2, []) of
              None \<Rightarrow> Undefined_behaviour
            | Some (h', lost) \<Rightarrow>
                Returned
                  \<lparr>return_value = [],
                   tracker_after = bt,
                   memory_after = mem\<lparr>objs := h'\<rparr>,
                   detections_after = dets,
                   objs_after_detections = objs mem,
                   detections_high_conf = high,
                   detections_low_conf = low,
                   unconfirmed_tracks = unconfirmed,
                   tracked_tracks = tracked,
                   tracks_pool = pool,
                   distances_first_association = dist1,
                   first_associations = first,
                   objs_before_first = h,
                   after_first = st1,
                   unmatched_tracks_after_1st_association = unmatched,
                   line_158_value = dropped,
                   iou_dists_second = CostMatrix_default,
                   second_associations = second,
                   objs_after_second = al_objs st2,
                   activated_tracks = al_activated st2,
                   refind_tracks = al_refind st2,
                   lost_tracks = lost\<rparr>))))"

text \<open>
  Line 49: \<^verbatim>\<open>_frame_id++\<close> on an unsigned counter of \<open>frame_id_bits\<close> bits, which starts
  again at 0 after its largest value.
\<close>

definition next_frame_id :: "ops \<Rightarrow> BoTSORT \<Rightarrow> nat" where
  "next_frame_id ops bt = (m_frame_id bt + 1) mod 2 ^ frame_id_bits ops"

text \<open>
  \<^verbatim>\<open>BoTSORT::track\<close> (lines 46 to 199), on the tracker \<open>bt0\<close>, the memory \<open>mem0\<close> and
  the caller's vector: the counter, the loop over the detections, the split of the
  tracked list, the merged pool, prediction and motion compensation, and then the
  associations.
\<close>

definition track :: "ops \<Rightarrow> BoTSORT \<Rightarrow> memory \<Rightarrow> Detection list \<Rightarrow> Mat \<Rightarrow> outcome" where
  "track ops bt0 mem0 detections frame =
     (let bt = bt0\<lparr>m_frame_id := next_frame_id ops bt0\<rparr>;
          dl = detection_loop ops bt frame detections
                 \<lparr>dl_mem = mem0, dl_visited = [], dl_high = [], dl_low = []\<rparr>
      in case snd dl of
           Some e \<Rightarrow> Threw e bt (dl_mem (fst dl)) (dl_visited (fst dl))
         | None \<Rightarrow>
        (let mem = dl_mem (fst dl);
             dets = dl_visited (fst dl);
             unconfirmed = filter (\<lambda>t. \<not> is_activated (objs mem t)) (m_tracked_tracks bt);
             tracked = filter (\<lambda>t. is_activated (objs mem t)) (m_tracked_tracks bt);
             pool = merge_track_lists (objs mem) tracked (m_lost_tracks bt);
             h1 = Track_multi_predict ops pool (m_kalman_filter bt) (objs mem);
             gmc = GMC_apply ops (m_gmc_algo bt) frame dets;
             h2 = Track_multi_gmc ops pool (fst gmc) h1;
             h3 = Track_multi_gmc ops unconfirmed (fst gmc) h2
         in associate ops (bt\<lparr>m_gmc_algo := snd gmc\<rparr>) mem dets
              (dl_high (fst dl)) (dl_low (fst dl)) unconfirmed tracked pool h3))"

text \<open>The trace of a call that returned.\<close>

definition returned :: "outcome \<Rightarrow> frame_trace option" where
  "returned out = (case out of Returned r \<Rightarrow> Some r | _ \<Rightarrow> None)"

text \<open>The caller's vector after a call that has thrown.\<close>

definition left_behind :: "outcome \<Rightarrow> Detection list option" where
  "left_behind out = (case out of Threw e bt mem dets \<Rightarrow> Some dets | _ \<Rightarrow> None)"

subsection \<open>A sequence of frames\<close>

text \<open>
  The caller feeds one frame after the other to the same tracker, going on after an
  exception; nothing can be said once a call has run into undefined behaviour.
\<close>

fun run ::
  "ops \<Rightarrow> BoTSORT \<Rightarrow> memory \<Rightarrow> (Detection list \<times> Mat) list \<Rightarrow> (BoTSORT \<times> memory) option" where
  "run ops bt mem [] = Some (bt, mem)"
| "run ops bt mem (input # rest) =
     (case track ops bt mem (fst input) (snd input) of
        Returned r \<Rightarrow> run ops (tracker_after r) (memory_after r) rest
      | Threw e bt' mem' dets' \<Rightarrow> run ops bt' mem' rest
      | Undefined_behaviour \<Rightarrow> None)"

text \<open>
  Two facts about the parameters that keep a tracker with no tracks away from undefined
  behaviour: a cost matrix built for no tracks has no rows, and the solver names no
  row of a matrix without rows.
\<close>

definition solver_rows :: "ops \<Rightarrow> bool" where
  "solver_rows ops \<longleftrightarrow>
     (\<forall>C thresh. mrows C = 0 \<longrightarrow>
        matches (linear_assignment ops C thresh) = [] \<and>
        unmatched_track_indices (linear_assignment ops C thresh) = [])"

definition cost_rows :: "ops \<Rightarrow> bool" where
  "cost_rows ops \<longleftrightarrow> (\<forall>bt dets. mrows (first_association_cost ops bt [] dets) = 0)"

section \<open>An instance of the parameters\<close>

text \<open>
  To run the tracker on concrete frames, the parameters need values. The instance
  below keeps to the specification where that is a matter of bookkeeping (the
  lifecycle fields of a track, the shape of a cost matrix, the result of an
  association) and is as plain as possible elsewhere: prediction and motion
  compensation leave the tracks alone, the IoU distance is 0 between equal boxes and 1
  between different ones, and the solver gives each row, in turn, the first free
  column whose cost is within the threshold.
\<close>

text \<open>
  Modelled from the spec: the constructors of \<^verbatim>\<open>Track\<close>, which are not in the sources
  at hand (section 3: a track is created from a detection in state New, not activated,
  and gets its id only on activation).
\<close>

definition sample_Track_ctor :: "float list \<Rightarrow> float \<Rightarrow> int \<Rightarrow> FeatureVector option \<Rightarrow> Track" where
  "sample_Track_ctor box conf cls feat =
     \<lparr>track_id = 0, state = New, is_activated = False, tlwh = box, score = conf,
      track_class_id = cls, curr_feat = feat, mean = [], covariance = [],
      start_frame = 0, frame_id = 0, tracklet_len = 0\<rparr>"

text \<open>
  Modelled from the spec: \<^verbatim>\<open>Track::update\<close>, \<^verbatim>\<open>Track::re_activate\<close> and
  \<^verbatim>\<open>Track::mark_lost\<close> (section 4.2), which are not in the sources at hand. The
  Kalman update is replaced by taking over the box of the detection; a new id, which
  \<open>track\<close> never asks for, is the negated old one.
\<close>

definition sample_update :: "Track \<Rightarrow> KalmanFilter \<Rightarrow> Track \<Rightarrow> nat \<Rightarrow> Track" where
  "sample_update t kf det fid =
     t\<lparr>tlwh := tlwh det, score := score det, curr_feat := curr_feat det,
       frame_id := fid, tracklet_len := tracklet_len t + 1\<rparr>"

definition sample_re_activate :: "Track \<Rightarrow> KalmanFilter \<Rightarrow> Track \<Rightarrow> nat \<Rightarrow> bool \<Rightarrow> Track" where
  "sample_re_activate t kf det fid new_id =
     t\<lparr>track_id := (if new_id then - track_id t else track_id t),
       state := Tracked, is_activated := True,
       tlwh := tlwh det, score := score det, curr_feat := curr_feat det,
       frame_id := fid, tracklet_len := 0\<rparr>"

definition sample_mark_lost :: "Track \<Rightarrow> Track" where
  "sample_mark_lost t = t\<lparr>state := Lost\<rparr>"

text \<open>
  Modelled from the spec: \<^verbatim>\<open>iou_distance\<close>, which is not in the sources at hand, as far
  as the shape of its result goes (section 4.4: one row for each track, one column for
  each detection). The entries stand in for the geometry: the IoU distance of equal
  boxes is 0, and that of the boxes used here, when they differ, is 1.
\<close>

definition sample_iou_distance :: "Track list \<Rightarrow> Track list \<Rightarrow> CostMatrix" where
  "sample_iou_distance a b =
     \<lparr>mrows = length a, mcols = length b,
      coeffs = concat (map (\<lambda>t. map (\<lambda>d. if tlwh t = tlwh d then Fin 0 else Fin 1) b) a)\<rparr>"

text \<open>
  Modelled from the spec: \<^verbatim>\<open>linear_assignment\<close>, which is not in the sources at hand, as
  far as the form of its result goes (section 4.5: pairs of a row and a column whose
  cost is within the threshold, each row and each column in at most one pair, the
  other rows and columns reported as unmatched). It is greedy, not optimal: each row,
  in turn, gets the first free column within the threshold.
\<close>

definition entry :: "CostMatrix \<Rightarrow> nat \<Rightarrow> nat \<Rightarrow> float" where
  "entry C i j = coeffs C ! (i * mcols C + j)"

fun assign_rows ::
  "CostMatrix \<Rightarrow> float \<Rightarrow> nat list \<Rightarrow> nat list \<Rightarrow> (int \<times> int) list \<Rightarrow> int list \<Rightarrow> AssociationData" where
  "assign_rows C thresh [] free ms ur =
     \<lparr>matches = ms, unmatched_track_indices = ur, unmatched_det_indices = map int free\<rparr>"
| "assign_rows C thresh (i # rest) free ms ur =
     (case filter (\<lambda>j. fle (entry C i j) thresh) free of
        [] \<Rightarrow> assign_rows C thresh rest free ms (ur @ [int i])
      | j # _ \<Rightarrow> assign_rows C thresh rest (remove1 j free) (ms @ [(int i, int j)]) ur)"

definition sample_linear_assignment :: "CostMatrix \<Rightarrow> float \<Rightarrow> AssociationData" where
  "sample_linear_assignment C thresh = assign_rows C thresh [0..<mrows C] [0..<mcols C] [] []"

text \<open>
  \<^verbatim>\<open>cv::Mat::operator()\<close> of OpenCV throws unless the rectangle lies inside the matrix:
  neither corner coordinate nor extent negative, and the far edges within the columns
  and rows. The boxes used here have whole coordinates, so the conversion of the
  rectangle to integers changes nothing.
\<close>

fun inside :: "float \<Rightarrow> float \<Rightarrow> int \<Rightarrow> bool" where
  "inside (Fin a) (Fin l) n \<longleftrightarrow> 0 \<le> a \<and> 0 \<le> l \<and> a + l \<le> real_of_int n"
| "inside _ _ n \<longleftrightarrow> False"

definition sample_roi :: "Mat \<Rightarrow> Rect \<Rightarrow> exn + Mat" where
  "sample_roi frame box =
     (if inside (rect_x box) (rect_width box) (cols frame) \<and>
         inside (rect_y box) (rect_height box) (rows frame)
      then Inr frame else Inl cv_Exception)"

definition sample_ops :: ops where
  "sample_ops =
     \<lparr>Track_ctor = sample_Track_ctor,
      Track_multi_predict = (\<lambda>tracks kf h. h),
      Track_multi_gmc = (\<lambda>tracks H h. h),
      Track_update = sample_update,
      Track_re_activate = sample_re_activate,
      Track_mark_lost = sample_mark_lost,
      Mat_roi = sample_roi,
      ReIDModel_extract_features = (\<lambda>patch. []),
      GMC_apply = (\<lambda>g frame dets. ([Fin 1, Fin 0, Fin 0, Fin 0, Fin 1, Fin 0, Fin 0, Fin 0, Fin 1],
                                     g\<lparr>gmc_state := gmc_state g + 1\<rparr>)),
      iou_distance = sample_iou_distance,
      embedding_distance = sample_iou_distance,
      fuse_score = (\<lambda>C dets. C),
      fuse_motion = (\<lambda>kf C tracks dets only_position lam. C),
      fuse_iou_with_emb = (\<lambda>iou emb proximity appearance. iou),
      linear_assignment = sample_linear_assignment,
      frame_id_bits = 32\<rparr>"

text \<open>
  A configuration and the tracker the constructor makes of it, at 30 frames per second
  and without Re-ID; the thresholds are binary fractions, which a \<^verbatim>\<open>float\<close> holds
  exactly.
\<close>

definition sample_config :: config where
  "sample_config =
     \<lparr>model_weights = None, fp16_inference = False,
      track_high_thresh = Fin (5 / 8), new_track_thresh = Fin (3 / 4), track_buffer = 30,
      match_thresh = Fin (3 / 4), proximity_thresh = Fin (1 / 2), appearance_thresh = Fin (1 / 4),
      gmc_method = ''none'', frame_rate = 30, lambda = Fin (63 / 64)\<rparr>"

definition sample_tracker :: BoTSORT where
  "sample_tracker =
     \<lparr>m_track_high_thresh = Fin (5 / 8), m_new_track_thresh = Fin (3 / 4), m_track_buffer = 30,
      m_match_thresh = Fin (3 / 4), m_proximity_thresh = Fin (1 / 2),
      m_appearance_thresh = Fin (1 / 4), m_frame_rate = 30, m_lambda = Fin (63 / 64),
      m_frame_id = 0, m_buffer_size = 30, m_max_time_lost = 30,
      m_kalman_filter = KalmanFilter_ctor 30, m_reid_enabled = False,
      m_gmc_algo = \<lparr>gmc_method_name = ''none'', gmc_state = 0\<rparr>,
      m_tracked_tracks = [], m_lost_tracks = []\<rparr>"

text \<open>A track with a box, an id and a state, confirmed; a detection with a box and a confidence.\<close>

definition sample_box :: "real \<Rightarrow> Rect" where
  "sample_box r = \<lparr>rect_x = Fin r, rect_y = Fin 20, rect_width = Fin 50, rect_height = Fin 100\<rparr>"

definition sample_track :: "int \<Rightarrow> TrackState \<Rightarrow> real \<Rightarrow> Track" where
  "sample_track i s r =
     \<lparr>track_id = i, state = s, is_activated = True, tlwh = tlwh_of (sample_box r), score = Fin (7 / 8),
      track_class_id = 0, curr_feat = None, mean = [], covariance = [],
      start_frame = 1, frame_id = 1, tracklet_len = 0\<rparr>"

definition sample_detection :: "real \<Rightarrow> real \<Rightarrow> Detection" where
  "sample_detection r c =
     \<lparr>bbox_tlwh = sample_box r, confidence = Fin c, class_id = 0, embedding = None\<rparr>"

definition sample_frame :: Mat where
  "sample_frame = \<lparr>cols = 640, rows = 480, pixels = 0\<rparr>"

text \<open>A memory that holds the given tracks at the addresses 0, 1, ...\<close>

definition sample_memory :: "Track list \<Rightarrow> memory" where
  "sample_memory ts =
     \<lparr>objs = (\<lambda>a. if a < length ts then ts ! a else sample_track 0 Removed 0), brk = length ts\<rparr>"

section \<open>Describing a frame\<close>

text \<open>
  The tracklet of the detection at position \<open>i\<close> of the caller's vector lives at the
  address \<open>b + i\<close>, where \<open>b\<close> is the first unused address when \<open>track\<close> starts.
  \<open>tracklets thresh c b dets\<close> are the tracklets of the detections whose confidence
  falls into class \<open>c\<close>, in the order of the detections.
\<close>

definition tracklets :: "float \<Rightarrow> conf_class \<Rightarrow> addr \<Rightarrow> Detection list \<Rightarrow> addr list" where
  "tracklets thresh c b dets =
     map fst (filter (\<lambda>p. classify thresh (confidence (snd p)) = c) (zip [b..<b + length dets] dets))"


text \<open>
  The tracks of list b that \<open>merge_track_lists\<close> keeps are those whose id occurs
  neither in list a nor earlier in list b.
\<close>

definition kept_lost :: "(addr \<Rightarrow> Track) \<Rightarrow> addr list \<Rightarrow> addr list \<Rightarrow> addr list" where
  "kept_lost h confirmed lost =
     map ((!) lost)
       (filter (\<lambda>j. track_id (h (lost ! j)) \<notin> set (map (\<lambda>t. track_id (h t)) confirmed) \<and>
                    track_id (h (lost ! j)) \<notin> set (map (\<lambda>t. track_id (h t)) (take j lost)))
          [0..<length lost])"

definition new_ids :: "(addr \<Rightarrow> Track) \<Rightarrow> (int \<rightharpoonup> bool) \<Rightarrow> addr list \<Rightarrow> addr list" where
  "new_ids h ex lost =
     map ((!) lost)
       (filter (\<lambda>j. ex (track_id (h (lost ! j))) = None \<and>
                    track_id (h (lost ! j)) \<notin> set (map (\<lambda>t. track_id (h t)) (take j lost)))
          [0..<length lost])"

text \<open>The track and the detection a match refers to.\<close>

definition matched_track :: "addr list \<Rightarrow> int \<times> int \<Rightarrow> addr" where
  "matched_track trks m = trks ! nat (fst m)"

definition matched_detection :: "addr list \<Rightarrow> int \<times> int \<Rightarrow> addr" where
  "matched_detection dets m = dets ! nat (snd m)"

text \<open>What lines 132 to 140 make of a matched track.\<close>

definition updated_track :: "ops \<Rightarrow> KalmanFilter \<Rightarrow> nat \<Rightarrow> Track \<Rightarrow> Track \<Rightarrow> Track" where
  "updated_track ops kf fid t d =
     (if state t = Tracked then Track_update ops t kf d fid
      else Track_re_activate ops t kf d fid False)"

text \<open>The track at an address when the call has returned.\<close>

definition track_after :: "addr \<Rightarrow> frame_trace \<Rightarrow> Track" where
  "track_after a r = objs (memory_after r) a"

text \<open>
  What step 11 of the frame algorithm of the specification asks \<open>track\<close> to return:
  copies of the tracks of the tracked pool that are activated, as they are when the
  call returns.
\<close>

definition active_tracks :: "frame_trace \<Rightarrow> Track list" where
  "active_tracks r =
     map (objs (memory_after r))
       (filter (\<lambda>t. is_activated (objs (memory_after r) t)) (m_tracked_tracks (tracker_after r)))"

section \<open>Running the model\<close>

lemmas eval_defs =
  track_def next_frame_id_def associate_def first_association_cost_def merge_track_lists_def update_step_def
  push_tracklet_def new_Track_def classify_def clamp_detection_def tlwh_of_def
  fge_def fgt_def std_max_def std_min_def lit_0_1_def in_range_def returned_def left_behind_def
  CostMatrix_default_def Mat_default_def extract_features_def
  sample_ops_def sample_roi_def sample_Track_ctor_def sample_update_def sample_re_activate_def
  sample_mark_lost_def sample_iou_distance_def sample_linear_assignment_def entry_def
  sample_tracker_def sample_box_def sample_track_def sample_detection_def sample_frame_def
  sample_memory_def track_after_def active_tracks_def Let_def

lemmas round_defs =
  buffer_size_def double_div_def double_mult_def round_ratio_def binade_def scaled_def
  rne_def cast_uint8_def trunc_def float_of_int_def dval_def compute_bitlen Let_def

lemma sample_frame_bounds: "float_of_int 639 = Fin 639" "float_of_int 479 = Fin 479"
  by (simp_all add: round_defs)

lemma sample_ctor: "BoTSORT_ctor sample_config = Some sample_tracker"
  by (simp add: BoTSORT_ctor_def sample_config_def sample_tracker_def round_defs)

lemma sample_solver_rows: "solver_rows sample_ops"
  by (simp add: solver_rows_def sample_ops_def sample_linear_assignment_def)

lemma sample_cost_rows: "cost_rows sample_ops"
  by (simp add: cost_rows_def sample_ops_def first_association_cost_def sample_iou_distance_def)

section \<open>The structure of a call\<close>

lemma associate_Returned:
  assumes "associate ops bt mem dets high low unconfirmed tracked pool h = Returned r"
  shows "return_value r = []" "tracker_after r = bt" "detections_after r = dets"
    "detections_high_conf r = high" "detections_low_conf r = low"
    "unconfirmed_tracks r = unconfirmed" "tracked_tracks r = tracked" "tracks_pool r = pool"
    "iou_dists_second r = CostMatrix_default" "objs_before_first r = h"
    "first_associations r =
       linear_assignment ops (first_association_cost ops bt (map h pool) (map h high)) (m_match_thresh bt)"
    "second_associations r = linear_assignment ops CostMatrix_default (Fin (1 / 2))"
    "brk (memory_after r) = brk mem"
  using assms
  by (auto simp: associate_def Let_def split: option.splits prod.splits)

lemma track_Returned:
  assumes "track ops bt0 mem0 detections frame = Returned r"
  obtains st where
    "detection_loop ops (bt0\<lparr>m_frame_id := next_frame_id ops bt0\<rparr>) frame detections
       \<lparr>dl_mem = mem0, dl_visited = [], dl_high = [], dl_low = []\<rparr> = (st, None)"
    "tracker_after r = bt0\<lparr>m_frame_id := next_frame_id ops bt0,
        m_gmc_algo := snd (GMC_apply ops (m_gmc_algo bt0) frame (dl_visited st))\<rparr>"
    "detections_after r = dl_visited st"
    "detections_high_conf r = dl_high st"
    "detections_low_conf r = dl_low st"
    "return_value r = []"
    "iou_dists_second r = CostMatrix_default"
    "tracks_pool r = merge_track_lists (objs (dl_mem st))
        (filter (\<lambda>t. is_activated (objs (dl_mem st) t)) (m_tracked_tracks bt0)) (m_lost_tracks bt0)"
proof -
  obtain st e where dl: "detection_loop ops (bt0\<lparr>m_frame_id := next_frame_id ops bt0\<rparr>) frame detections
       \<lparr>dl_mem = mem0, dl_visited = [], dl_high = [], dl_low = []\<rparr> = (st, e)"
    by (cases "detection_loop ops (bt0\<lparr>m_frame_id := next_frame_id ops bt0\<rparr>) frame detections
       \<lparr>dl_mem = mem0, dl_visited = [], dl_high = [], dl_low = []\<rparr>")
  from assms dl have e: "e = None"
    by (auto simp: track_def Let_def split: option.splits)
  from assms dl e obtain bt mem unc trk pool h where
    a: "associate ops bt mem (dl_visited st) (dl_high st) (dl_low st) unc trk pool h = Returned r"
    and bt: "bt = bt0\<lparr>m_frame_id := next_frame_id ops bt0,
        m_gmc_algo := snd (GMC_apply ops (m_gmc_algo bt0) frame (dl_visited st))\<rparr>"
    and pool: "pool = merge_track_lists (objs (dl_mem st))
        (filter (\<lambda>t. is_activated (objs (dl_mem st) t)) (m_tracked_tracks bt0)) (m_lost_tracks bt0)"
    by (auto simp: track_def Let_def)
  show thesis
    using that[OF dl[unfolded e]] associate_Returned[OF a] bt pool by simp
qed

lemma associate_loops:
  assumes "associate ops bt mem dets high low unconfirmed tracked pool h = Returned r"
  shows "update_matched ops (m_kalman_filter bt) (m_frame_id bt) pool high
           (matches (first_associations r)) \<lparr>al_objs = h, al_activated = [], al_refind = []\<rparr>
         = Some (after_first r)"
    and "unmatched_tracked (al_objs (after_first r)) pool
           (unmatched_track_indices (first_associations r)) []
         = Some (unmatched_tracks_after_1st_association r)"
    and "\<exists>st2. update_matched ops (m_kalman_filter bt) (m_frame_id bt)
                 (unmatched_tracks_after_1st_association r) low
                 (matches (second_associations r)) (after_first r) = Some st2 \<and>
               activated_tracks r = al_activated st2 \<and> refind_tracks r = al_refind st2 \<and>
               mark_unmatched_lost ops (unmatched_tracks_after_1st_association r)
                 (unmatched_track_indices (second_associations r)) (al_objs st2, [])
               = Some (objs (memory_after r), lost_tracks r)"
    and "objs_after_detections r = objs mem"
    and "update_matched ops (m_kalman_filter bt) (m_frame_id bt)
           (unmatched_tracks_after_1st_association r) low
           (matches (second_associations r)) (after_first r)
         = Some \<lparr>al_objs = objs_after_second r, al_activated = activated_tracks r,
                  al_refind = refind_tracks r\<rparr>"
    and "mark_unmatched_lost ops (unmatched_tracks_after_1st_association r)
           (unmatched_track_indices (second_associations r)) (objs_after_second r, [])
         = Some (objs (memory_after r), lost_tracks r)"
  using assms
  by (auto simp: associate_def Let_def split: option.splits prod.splits)

lemma track_Returned_associate:
  assumes "track ops bt0 mem0 detections frame = Returned r"
  obtains st where
    "detection_loop ops (bt0\<lparr>m_frame_id := next_frame_id ops bt0\<rparr>) frame detections
       \<lparr>dl_mem = mem0, dl_visited = [], dl_high = [], dl_low = []\<rparr> = (st, None)"
    "associate ops
       (bt0\<lparr>m_frame_id := next_frame_id ops bt0,
            m_gmc_algo := snd (GMC_apply ops (m_gmc_algo bt0) frame (dl_visited st))\<rparr>)
       (dl_mem st) (dl_visited st) (dl_high st) (dl_low st)
       (filter (\<lambda>t. \<not> is_activated (objs (dl_mem st) t)) (m_tracked_tracks bt0))
       (filter (\<lambda>t. is_activated (objs (dl_mem st) t)) (m_tracked_tracks bt0))
       (merge_track_lists (objs (dl_mem st))
          (filter (\<lambda>t. is_activated (objs (dl_mem st) t)) (m_tracked_tracks bt0)) (m_lost_tracks bt0))
       (Track_multi_gmc ops (filter (\<lambda>t. \<not> is_activated (objs (dl_mem st) t)) (m_tracked_tracks bt0))
          (fst (GMC_apply ops (m_gmc_algo bt0) frame (dl_visited st)))
          (Track_multi_gmc ops
             (merge_track_lists (objs (dl_mem st))
                (filter (\<lambda>t. is_activated (objs (dl_mem st) t)) (m_tracked_tracks bt0)) (m_lost_tracks bt0))
             (fst (GMC_apply ops (m_gmc_algo bt0) frame (dl_visited st)))
             (Track_multi_predict ops
                (merge_track_lists (objs (dl_mem st))
                   (filter (\<lambda>t. is_activated (objs (dl_mem st) t)) (m_tracked_tracks bt0)) (m_lost_tracks bt0))
                (m_kalman_filter bt0) (objs (dl_mem st)))))
     = Returned r"
proof -
  obtain st e where dl: "detection_loop ops (bt0\<lparr>m_frame_id := next_frame_id ops bt0\<rparr>) frame detections
       \<lparr>dl_mem = mem0, dl_visited = [], dl_high = [], dl_low = []\<rparr> = (st, e)"
    by (cases "detection_loop ops (bt0\<lparr>m_frame_id := next_frame_id ops bt0\<rparr>) frame detections
       \<lparr>dl_mem = mem0, dl_visited = [], dl_high = [], dl_low = []\<rparr>")
  from assms dl have e: "e = None"
    by (auto simp: track_def Let_def split: option.splits)
  from assms dl e show thesis
    by (intro that[of st]) (simp_all add: track_def Let_def)
qed

subsection \<open>The loop over the detections\<close>

lemma clamp_detection_keeps:
  "confidence (clamp_detection frame d) = confidence d"
  "class_id (clamp_detection frame d) = class_id d"
  "embedding (clamp_detection frame d) = embedding d"
  by (simp_all add: clamp_detection_def)

lemma tracklets_Nil: "tracklets thresh c b [] = []"
  by (simp add: tracklets_def)

lemma tracklets_Cons:
  "tracklets thresh c b (d # ds) =
     (if classify thresh (confidence d) = c then [b] else []) @ tracklets thresh c (Suc b) ds"
proof -
  have "[b..<b + length (d # ds)] = b # [Suc b..<Suc b + length ds]"
    by (simp add: upt_conv_Cons del: upt_Suc)
  then show ?thesis
    by (simp add: tracklets_def del: upt_Suc)
qed

lemma tracklets_mem:
  "a \<in> set (tracklets thresh c b dets) \<longleftrightarrow>
     (\<exists>i < length dets. a = b + i \<and> classify thresh (confidence (dets ! i)) = c)"
proof -
  have "a \<in> set (tracklets thresh c b dets) \<longleftrightarrow>
     (\<exists>p \<in> set (zip [b..<b + length dets] dets).
        a = fst p \<and> classify thresh (confidence (snd p)) = c)"
    by (auto simp: tracklets_def)
  also have "\<dots> \<longleftrightarrow> (\<exists>i < length dets. a = b + i \<and> classify thresh (confidence (dets ! i)) = c)"
    by (force simp: set_zip)
  finally show ?thesis .
qed

lemma push_tracklet_fields:
  "dl_visited (push_tracklet thresh t d' st) = dl_visited st @ [d']"
  "brk (dl_mem (push_tracklet thresh t d' st)) = Suc (brk (dl_mem st))"
  "dl_high (push_tracklet thresh t d' st) =
     dl_high st @ (if classify thresh (confidence d') = High then [brk (dl_mem st)] else [])"
  "dl_low (push_tracklet thresh t d' st) =
     dl_low st @ (if classify thresh (confidence d') = Low then [brk (dl_mem st)] else [])"
  "a < brk (dl_mem st) \<Longrightarrow> objs (dl_mem (push_tracklet thresh t d' st)) a = objs (dl_mem st) a"
  by (simp_all add: push_tracklet_def new_Track_def Let_def split: conf_class.splits)

lemma detection_loop_None:
  assumes "detection_loop ops bt frame dets st = (st', None)"
  shows "dl_visited st' = dl_visited st @ map (clamp_detection frame) dets
       \<and> brk (dl_mem st') = brk (dl_mem st) + length dets
       \<and> dl_high st' = dl_high st @ tracklets (m_track_high_thresh bt) High (brk (dl_mem st)) dets
       \<and> dl_low st' = dl_low st @ tracklets (m_track_high_thresh bt) Low (brk (dl_mem st)) dets
       \<and> (\<forall>a < brk (dl_mem st). objs (dl_mem st') a = objs (dl_mem st) a)"
  using assms
proof (induction dets arbitrary: st)
  case Nil
  then show ?case by (simp add: tracklets_Nil)
next
  case (Cons d ds)
  let ?d = "clamp_detection frame d"
  from Cons.prems obtain t where
    step: "detection_loop ops bt frame ds (push_tracklet (m_track_high_thresh bt) t ?d st) = (st', None)"
    by (auto simp: Let_def split: if_splits sum.splits)
  from Cons.IH[OF step] show ?case
    by (simp add: push_tracklet_fields tracklets_Cons clamp_detection_keeps)
qed






section \<open>The frame counter\<close>

lemma ctor_fields:
  "BoTSORT_ctor c = Some bt \<Longrightarrow> m_frame_id bt = 0 \<and> m_tracked_tracks bt = [] \<and> m_lost_tracks bt = []"
  by (auto simp: BoTSORT_ctor_def split: option.splits)


lemma next_frame_id_less: "next_frame_id ops bt < 2 ^ frame_id_bits ops"
  by (simp add: next_frame_id_def)

lemma track_counter_Returned:
  assumes "track ops bt mem dets frame = Returned r"
  shows "m_frame_id (tracker_after r) = next_frame_id ops bt \<and>
     m_tracked_tracks (tracker_after r) = m_tracked_tracks bt \<and>
     m_lost_tracks (tracker_after r) = m_lost_tracks bt"
  using assms by (elim track_Returned) simp

lemma track_counter_Threw:
  assumes "track ops bt mem dets frame = Threw e bt' mem' dets'"
  shows "m_frame_id bt' = next_frame_id ops bt \<and>
     m_tracked_tracks bt' = m_tracked_tracks bt \<and>
     m_lost_tracks bt' = m_lost_tracks bt"
proof -
  from assms have "bt' = bt\<lparr>m_frame_id := next_frame_id ops bt\<rparr>"
    by (auto simp: track_def associate_def Let_def split: option.splits prod.splits)
  then show ?thesis by simp
qed



text \<open>
  Over a sequence of calls the counter goes up by the number of calls, modulo two to
  the power of its width; the two track lists and the Re-ID switch stay as they were.
\<close>

lemma run_counter:
  "run ops bt mem inputs = Some (bt', mem') \<Longrightarrow> m_frame_id bt < 2 ^ frame_id_bits ops \<Longrightarrow>
     m_frame_id bt' = (m_frame_id bt + length inputs) mod 2 ^ frame_id_bits ops"
proof (induction inputs arbitrary: bt mem)
  case Nil
  then show ?case by simp
next
  case (Cons input rest)
  have step: "(next_frame_id ops bt + length rest) mod 2 ^ frame_id_bits ops =
      (m_frame_id bt + length (input # rest)) mod 2 ^ frame_id_bits ops"
    by (simp add: next_frame_id_def mod_add_left_eq)
  show ?case
  proof (cases "track ops bt mem (fst input) (snd input)")
    case (Returned r)
    with Cons.prems have "run ops (tracker_after r) (memory_after r) rest = Some (bt', mem')"
      by simp
    from Cons.IH[OF this] track_counter_Returned[OF Returned] next_frame_id_less[of ops bt] step
    show ?thesis by simp
  next
    case (Threw e bt1 mem1 dets1)
    with Cons.prems have "run ops bt1 mem1 rest = Some (bt', mem')"
      by simp
    from Cons.IH[OF this] track_counter_Threw[OF Threw] next_frame_id_less[of ops bt] step
    show ?thesis by simp
  next
    case Undefined_behaviour
    with Cons.prems show ?thesis by simp
  qed
qed


lemma merge_track_lists_empty: "merge_track_lists h [] [] = []"
  by (simp add: merge_track_lists_def)

lemma track_no_tracks_defined:
  assumes "solver_rows ops" "cost_rows ops" "m_tracked_tracks bt = []" "m_lost_tracks bt = []"
  shows "track ops bt mem dets frame \<noteq> Undefined_behaviour"
proof -
  have d: "mrows CostMatrix_default = 0"
    by (simp add: CostMatrix_default_def)
  have a: "associate ops bt1 mem1 dets1 high low [] [] [] h \<noteq> Undefined_behaviour"
    for bt1 mem1 dets1 high low h
    using assms(1,2) d by (simp add: associate_def solver_rows_def cost_rows_def Let_def)
  show ?thesis
    using a assms(3,4) by (simp add: track_def Let_def merge_track_lists_empty split: option.splits)
qed

lemma run_no_tracks_defined:
  assumes "solver_rows ops" "cost_rows ops"
  shows "m_tracked_tracks bt = [] \<Longrightarrow> m_lost_tracks bt = [] \<Longrightarrow> run ops bt mem inputs \<noteq> None"
proof (induction inputs arbitrary: bt mem)
  case Nil
  then show ?case by simp
next
  case (Cons input rest)
  show ?case
  proof (cases "track ops bt mem (fst input) (snd input)")
    case (Returned r)
    from track_counter_Returned[OF Returned] Cons.prems
      Cons.IH[of "tracker_after r" "memory_after r"] Returned
    show ?thesis by simp
  next
    case (Threw e bt1 mem1 dets1)
    from track_counter_Threw[OF Threw] Cons.prems Cons.IH[of bt1 mem1] Threw
    show ?thesis by simp
  next
    case Undefined_behaviour
    with track_no_tracks_defined[OF assms Cons.prems] show ?thesis by simp
  qed
qed

text \<open>
  C10, amended. The constructor sets the frame counter to 0, and every call of \<open>track\<close>
  adds one to it before anything else, whether the call returns or throws, in the
  arithmetic of the counter: the sum is taken modulo \<open>2 ^ frame_id_bits\<close>. After any
  sequence of calls on a freshly constructed tracker the counter is therefore the
  number of calls modulo \<open>2 ^ frame_id_bits\<close>, whatever the detections and the frames
  were, and it is the number of calls itself as long as that number is below
  \<open>2 ^ frame_id_bits\<close>. The sequence does not run into undefined behaviour as long as
  the solver names no row of a matrix without rows.
\<close>

theorem frame_counter_counts_calls:
  assumes "BoTSORT_ctor c = Some bt"
  shows "m_frame_id bt = 0 \<and>
         (\<forall>bt1 mem1 dets frame.
            (\<forall>r. track ops bt1 mem1 dets frame = Returned r \<longrightarrow>
                 m_frame_id (tracker_after r) = (m_frame_id bt1 + 1) mod 2 ^ frame_id_bits ops) \<and>
            (\<forall>e bt2 mem2 dets2. track ops bt1 mem1 dets frame = Threw e bt2 mem2 dets2 \<longrightarrow>
                 m_frame_id bt2 = (m_frame_id bt1 + 1) mod 2 ^ frame_id_bits ops)) \<and>
         (\<forall>bt' mem'. run ops bt mem inputs = Some (bt', mem') \<longrightarrow>
            m_frame_id bt' = length inputs mod 2 ^ frame_id_bits ops \<and>
            (length inputs < 2 ^ frame_id_bits ops \<longrightarrow> m_frame_id bt' = length inputs)) \<and>
         (solver_rows ops \<and> cost_rows ops \<longrightarrow> run ops bt mem inputs \<noteq> None)"
proof (intro conjI allI impI)
  show "m_frame_id bt = 0"
    using ctor_fields[OF assms] by simp
next
  fix bt1 mem1 dets frame r
  assume "track ops bt1 mem1 dets frame = Returned r"
  from track_counter_Returned[OF this]
  show "m_frame_id (tracker_after r) = (m_frame_id bt1 + 1) mod 2 ^ frame_id_bits ops"
    by (simp add: next_frame_id_def)
next
  fix bt1 mem1 dets frame e bt2 mem2 dets2
  assume "track ops bt1 mem1 dets frame = Threw e bt2 mem2 dets2"
  from track_counter_Threw[OF this]
  show "m_frame_id bt2 = (m_frame_id bt1 + 1) mod 2 ^ frame_id_bits ops"
    by (simp add: next_frame_id_def)
next
  fix bt' mem'
  assume r: "run ops bt mem inputs = Some (bt', mem')"
  from run_counter[OF r] ctor_fields[OF assms]
  show n: "m_frame_id bt' = length inputs mod 2 ^ frame_id_bits ops"
    by simp
  assume "length inputs < 2 ^ frame_id_bits ops"
  with n show "m_frame_id bt' = length inputs"
    by simp
next
  assume "solver_rows ops \<and> cost_rows ops"
  with run_no_tracks_defined[of ops bt mem inputs] ctor_fields[OF assms]
  show "run ops bt mem inputs \<noteq> None"
    by simp
qed

theorem frame_counter_counts_calls_witness:
  "BoTSORT_ctor sample_config = Some sample_tracker \<and>
   map_option (\<lambda>s. m_frame_id (fst s))
     (run sample_ops sample_tracker (sample_memory [])
        [([sample_detection 10 (7 / 8)], sample_frame), ([], sample_frame),
         ([sample_detection 12 (1 / 4), sample_detection 300 (7 / 8)], sample_frame)]) = Some 3"
proof -
  let ?inputs = "[([sample_detection 10 (7 / 8)], sample_frame), ([], sample_frame),
         ([sample_detection 12 (1 / 4), sample_detection 300 (7 / 8)], sample_frame)]"
  note fc = frame_counter_counts_calls[OF sample_ctor, of sample_ops "sample_memory []" ?inputs]
  from fc sample_solver_rows sample_cost_rows
  obtain bt' mem' where r: "run sample_ops sample_tracker (sample_memory []) ?inputs = Some (bt', mem')"
    by auto
  have "frame_id_bits sample_ops = 32"
    by (simp add: sample_ops_def)
  with fc r have "m_frame_id bt' = 3" by simp
  with r sample_ctor show ?thesis by simp
qed

text \<open>
  C10 as stated fails: with a counter of 32 bits, the 4294967296th call on a freshly
  constructed tracker takes the counter back to 0, which is not the number of calls.
\<close>

theorem frame_counter_wraps_counterexample:
  "BoTSORT_ctor sample_config = Some sample_tracker \<and>
   map_option (m_frame_id \<circ> fst)
     (run sample_ops sample_tracker (sample_memory []) (replicate 4294967296 ([], sample_frame)))
   = Some 0"
proof -
  define inputs where "inputs = replicate 4294967296 ([] :: Detection list, sample_frame)"
  have len: "length inputs = 4294967296"
    unfolding inputs_def by (rule length_replicate)
  have bits: "frame_id_bits sample_ops = 32"
    by (simp add: sample_ops_def)
  have pools: "m_tracked_tracks sample_tracker = []" "m_lost_tracks sample_tracker = []"
    "m_frame_id sample_tracker = 0"
    by (simp_all add: sample_tracker_def)
  from run_no_tracks_defined[OF sample_solver_rows sample_cost_rows pools(1,2)]
  obtain bt' mem' where r: "run sample_ops sample_tracker (sample_memory []) inputs = Some (bt', mem')"
    by fastforce
  from run_counter[OF r] have "m_frame_id bt' = 0"
    by (simp only: pools bits len) simp
  with r have "map_option (m_frame_id \<circ> fst)
      (run sample_ops sample_tracker (sample_memory []) inputs) = Some 0"
    by simp
  then show ?thesis
    unfolding inputs_def using sample_ctor by (simp only: simp_thms)
qed

section \<open>Numbers, again\<close>

text \<open>On finite values \<open>std_max\<close> and \<open>std_min\<close> are the maximum and the minimum.\<close>

lemma std_max_Fin: "std_max (Fin a) (Fin b) = Fin (max a b)"
  by (simp add: std_max_def max_def)

lemma std_min_Fin: "std_min (Fin a) (Fin b) = Fin (min a b)"
  by (simp add: std_min_def min_def)

lemma rne_whole: "rne a 1 = a"
  by (simp add: rne_def)

lemma binade_int:
  assumes "0 < n"
  shows "binade n 1 = bitlen n - 1"
proof -
  have b1: "bitlen 1 = 1"
    by (simp add: bitlen_alt_def)
  from assms have "1 \<le> bitlen n"
    by (simp add: bitlen_alt_def)
  moreover from bitlen_bounds[OF assms] have "2 ^ nat (bitlen n - 1) \<le> n"
    by simp
  ultimately show ?thesis
    by (simp add: binade_def scaled_def b1 Let_def)
qed

lemma round_ratio_exact:
  assumes "0 < n" "n < 2 ^ p"
  shows "dval (round_ratio p n 1) = of_int n"
proof -
  from bitlen_bounds[OF assms(1)] assms(2) have "(2::int) ^ nat (bitlen n - 1) < 2 ^ p"
    by linarith
  then have "nat (bitlen n - 1) < p"
    by simp
  then have "bitlen n \<le> int p"
    by linarith
  then have s: "bitlen n - 1 - (int p - 1) \<le> 0"
    by simp
  show ?thesis
  proof (cases "bitlen n - 1 - (int p - 1) = 0")
    case True
    with assms show ?thesis
      by (simp add: round_ratio_def binade_int scaled_def rne_whole dval_def Let_def)
  next
    case False
    with s have neg: "bitlen n - 1 - (int p - 1) < 0" by simp
    then have "(2::real) ^ nat (int p - bitlen n) * 2 powi (bitlen n - int p) = 1"
      by (simp add: power_int_def field_simps)
    with assms neg show ?thesis
      by (simp add: round_ratio_def binade_int scaled_def rne_whole dval_def Let_def algebra_simps)
  qed
qed

lemma float_of_int_exact:
  assumes "\<bar>n\<bar> < 2 ^ 24"
  shows "float_of_int n = Fin (of_int n)"
proof -
  consider "n = 0" | "0 < n" | "n < 0" by linarith
  then show ?thesis
  proof cases
    case 1
    then show ?thesis by (simp add: float_of_int_def round_ratio_def dval_def)
  next
    case 2
    with assms round_ratio_exact[of n 24] show ?thesis by (simp add: float_of_int_def)
  next
    case 3
    with assms round_ratio_exact[of "- n" 24] show ?thesis by (simp add: float_of_int_def)
  qed
qed

text \<open>Comparisons.\<close>

lemma flt_not_fle: "flt a b \<Longrightarrow> \<not> fle b a"
  by (cases a; cases b) simp_all

lemma fle_not_flt: "fle a b \<Longrightarrow> \<not> flt b a"
  by (cases a; cases b) simp_all


text \<open>No \<^verbatim>\<open>float\<close> lies between a tenth and the \<^verbatim>\<open>double\<close> nearest to it.\<close>

lemma tenth_int_1: "3602879701896397 < k * (268435456::int) \<longleftrightarrow> 13421772 < k"
  by linarith

lemma tenth_int_2: "(134217728::int) < k * 10 \<longleftrightarrow> 13421772 < k"
  by linarith

lemma small_binary32:
  assumes m: "\<bar>m\<bar> < (2::int) ^ 24" and e: "e \<le> - 28"
  shows "of_int m * 2 powi e \<le> (1 / 16 :: real)"
proof -
  have "(2::real) powi e \<le> 2 powi (- 28)"
    using e by (intro power_int_increasing) simp_all
  then have p: "(2::real) powi e \<le> 1 / 2 ^ 28"
    by (simp add: power_int_minus)
  have "real_of_int m \<le> real_of_int (2 ^ 24)"
    using m by (intro of_int_le_iff[THEN iffD2]) linarith
  then have q: "real_of_int m \<le> 2 ^ 24" by simp
  have z: "0 \<le> (2::real) powi e" by simp
  show ?thesis
  proof (cases "0 \<le> m")
    case True
    then have "of_int m * 2 powi e \<le> (2 ^ 24 :: real) * (1 / 2 ^ 28)"
      using p q z by (intro mult_mono) simp_all
    then show ?thesis by simp
  next
    case False
    then have "of_int m * (2::real) powi e \<le> 0"
      using z by (simp add: mult_nonpos_nonneg)
    then show ?thesis by simp
  qed
qed

lemma binary32_tenth:
  assumes "binary32 c"
  shows "lit_0_1 < c \<longleftrightarrow> 1 / 10 < c"
proof -
  from assms obtain m e :: int where
    m: "\<bar>m\<bar> < 2 ^ 24" and e: "- 149 \<le> e" "e \<le> 104" and c: "c = of_int m * 2 powi e"
    by (auto simp: binary32_def)
  have le: "1 / 10 \<le> lit_0_1"
    by (simp add: lit_0_1_def)
  show ?thesis
  proof (cases "- 27 \<le> e")
    case True
    define k where "k = m * 2 ^ nat (e + 27)"
    have "(2::real) powi (e + 27) = 2 powi e * 2 ^ 27"
      by (simp add: power_int_add)
    moreover have "(2::real) powi (e + 27) = 2 ^ nat (e + 27)"
      using True by (simp add: power_int_def)
    ultimately have "(2::real) powi e = 2 ^ nat (e + 27) / 2 ^ 27"
      by simp
    then have ck: "c = of_int k / 134217728"
      by (simp add: c k_def)
    have "lit_0_1 < c \<longleftrightarrow> (of_int 3602879701896397 :: real) < of_int (k * 268435456)"
      by (simp add: ck lit_0_1_def field_simps)
    also have "\<dots> \<longleftrightarrow> 3602879701896397 < k * 268435456"
      by (simp only: of_int_less_iff)
    finally have l: "lit_0_1 < c \<longleftrightarrow> 13421772 < k"
      by (simp only: tenth_int_1)
    have "1 / 10 < c \<longleftrightarrow> (of_int 134217728 :: real) < of_int (k * 10)"
      by (simp add: ck field_simps)
    also have "\<dots> \<longleftrightarrow> 134217728 < k * 10"
      by (simp only: of_int_less_iff)
    finally have "1 / 10 < c \<longleftrightarrow> 13421772 < k"
      by (simp only: tenth_int_2)
    with l show ?thesis by simp
  next
    case False
    then have "e \<le> - 28" by simp
    from small_binary32[OF m this] have "c \<le> 1 / 16"
      by (simp add: c)
    with le show ?thesis by simp
  qed
qed

lemma float32_tenth:
  assumes "is_float32 v"
  shows "fgt v (Fin lit_0_1) \<longleftrightarrow> fgt v (Fin (1 / 10))"
  using assms binary32_tenth by (cases v) (simp_all add: is_float32_def fgt_def)

lemma binary32_quarter: "binary32 (1 / 4)"
  unfolding binary32_def
  by (rule exI[of _ 1], rule exI[of _ "- 2"]) (simp add: power_int_minus)

section \<open>The detections of a frame\<close>

lemma tracklet_class:
  assumes "i < length dets"
  shows "b + i \<in> set (tracklets thresh c b dets) \<longleftrightarrow> classify thresh (confidence (dets ! i)) = c"
  using assms by (auto simp: tracklets_mem)

lemma track_tracklets:
  assumes "track ops bt mem detections frame = Returned r"
  shows "detections_high_conf r = tracklets (m_track_high_thresh bt) High (brk mem) detections"
    and "detections_low_conf r = tracklets (m_track_high_thresh bt) Low (brk mem) detections"
    and "detections_after r = map (clamp_detection frame) detections"
proof -
  from assms obtain st where
    dl: "detection_loop ops (bt\<lparr>m_frame_id := next_frame_id ops bt\<rparr>) frame detections
       \<lparr>dl_mem = mem, dl_visited = [], dl_high = [], dl_low = []\<rparr> = (st, None)"
    and f: "detections_after r = dl_visited st" "detections_high_conf r = dl_high st"
      "detections_low_conf r = dl_low st"
    by (elim track_Returned)
  from detection_loop_None[OF dl] f
  show "detections_high_conf r = tracklets (m_track_high_thresh bt) High (brk mem) detections"
    and "detections_low_conf r = tracklets (m_track_high_thresh bt) Low (brk mem) detections"
    and "detections_after r = map (clamp_detection frame) detections"
    by simp_all
qed




text \<open>
  Above \<open>2 ^ 24\<close> not every integer is a \<^verbatim>\<open>float\<close>: for a frame of \<open>2 ^ 24 + 2\<close>
  columns the bound of the width is \<open>2 ^ 24\<close>, not \<open>2 ^ 24 + 1\<close>.
\<close>

lemma float_of_int_rounds: "float_of_int (16777218 - 1) = Fin 16777216"
  by (simp add: round_defs)




text \<open>
  C6, amended. A detection whose confidence is at least \<^verbatim>\<open>track_high_thresh\<close> goes to
  the high-confidence list of the first association; one whose confidence is above 0.1
  and below \<^verbatim>\<open>track_high_thresh\<close> goes to the low-confidence list of the second
  association; one whose confidence is at most 0.1 is dropped, unless its confidence
  reaches \<^verbatim>\<open>track_high_thresh\<close> (the first test of line 69 comes first). The
  tracklet of the detection at position \<open>i\<close> is the address \<open>brk mem + i\<close>.
\<close>

theorem confidence_split:
  assumes "track ops bt mem detections frame = Returned r"
    and "i < length detections"
    and "is_float32 (confidence (detections ! i))"
  shows
    "(fge (confidence (detections ! i)) (m_track_high_thresh bt) \<longrightarrow>
        brk mem + i \<in> set (detections_high_conf r) \<and> brk mem + i \<notin> set (detections_low_conf r)) \<and>
     (fgt (confidence (detections ! i)) (Fin (1 / 10)) \<and>
      flt (confidence (detections ! i)) (m_track_high_thresh bt) \<longrightarrow>
        brk mem + i \<in> set (detections_low_conf r) \<and> brk mem + i \<notin> set (detections_high_conf r)) \<and>
     (fle (confidence (detections ! i)) (Fin (1 / 10)) \<and>
      \<not> fge (confidence (detections ! i)) (m_track_high_thresh bt) \<longrightarrow>
        brk mem + i \<notin> set (detections_high_conf r) \<and> brk mem + i \<notin> set (detections_low_conf r))"
proof -
  let ?c = "confidence (detections ! i)" and ?t = "m_track_high_thresh bt"
  have tenth: "fgt ?c (Fin lit_0_1) \<longleftrightarrow> fgt ?c (Fin (1 / 10))"
    using assms(3) by (rule float32_tenth)
  have high: "fge ?c ?t \<Longrightarrow> classify ?t ?c = High"
    by (simp add: classify_def)
  have low: "fgt ?c (Fin (1 / 10)) \<Longrightarrow> flt ?c ?t \<Longrightarrow> classify ?t ?c = Low"
    using tenth flt_not_fle[of ?c ?t] by (simp add: classify_def fge_def)
  have dropped: "fle ?c (Fin (1 / 10)) \<Longrightarrow> \<not> fge ?c ?t \<Longrightarrow> classify ?t ?c = Dropped"
    using tenth fle_not_flt[of ?c "Fin (1 / 10)"] by (simp add: classify_def fgt_def)
  from high low dropped show ?thesis
    by (simp add: track_tracklets[OF assms(1)] tracklet_class[OF assms(2)])
qed

theorem confidence_split_witness:
  "is_float32 (Fin (1 / 4)) \<and>
   (case returned (track sample_ops sample_tracker (sample_memory [])
       [sample_detection 10 (7 / 8), sample_detection 200 (1 / 4), sample_detection 400 (1 / 16)]
       sample_frame) of
      None \<Rightarrow> False
    | Some r \<Rightarrow> 1 \<in> set (detections_low_conf r) \<and> 1 \<notin> set (detections_high_conf r))"
proof -
  let ?dets = "[sample_detection 10 (7 / 8), sample_detection 200 (1 / 4), sample_detection 400 (1 / 16)]"
  have f: "is_float32 (confidence (?dets ! 1))"
    by (simp add: is_float32_def sample_detection_def binary32_quarter)
  obtain r where r: "track sample_ops sample_tracker (sample_memory []) ?dets sample_frame = Returned r"
    by (simp add: eval_defs sample_frame_bounds)
  from confidence_split[OF r _ f] have "1 \<in> set (detections_low_conf r) \<and> 1 \<notin> set (detections_high_conf r)"
    by (simp add: sample_detection_def sample_tracker_def sample_memory_def fgt_def)
  with r f show ?thesis
    by (simp add: returned_def sample_detection_def)
qed

text \<open>
  C6 as stated fails: with \<^verbatim>\<open>track_high_thresh\<close> = 1/16, a detection of confidence
  3/32, which is below 0.1, is put into the high-confidence list.
\<close>

theorem low_confidence_in_high_set_counterexample:
  "fle (Fin (3 / 32)) (Fin (1 / 10)) \<and>
   map_option detections_high_conf
     (returned (track sample_ops (sample_tracker\<lparr>m_track_high_thresh := Fin (1 / 16)\<rparr>) (sample_memory [])
        [sample_detection 10 (3 / 32)] sample_frame)) = Some [0]"
  by (simp add: eval_defs sample_frame_bounds)




section \<open>The prediction pool\<close>

lemma merge_list_a_eq:
  "merge_list_a h a (ex, ms) = (\<lambda>k. if k \<in> set (map (\<lambda>t. track_id (h t)) a) then Some True else ex k, ms @ a)"
proof (induction a arbitrary: ex ms)
  case Nil
  then show ?case by simp
next
  case (Cons t a)
  show ?case
    by (auto simp: Cons.IH fun_eq_iff)
qed

lemma merge_list_b_snoc:
  "merge_list_b h (b @ [t]) acc =
     (let (ex, ms) = merge_list_b h b acc
      in if ex (track_id (h t)) = None then (ex(track_id (h t) \<mapsto> True), ms @ [t]) else (ex, ms))"
proof (induction b arbitrary: acc)
  case Nil
  then show ?case by (cases acc) simp
next
  case (Cons u b)
  show ?case
    by (cases acc) (simp add: Cons.IH)
qed

lemma new_ids_snoc:
  "new_ids h ex (b @ [t]) =
     new_ids h ex b @
       (if ex (track_id (h t)) = None \<and> track_id (h t) \<notin> set (map (\<lambda>u. track_id (h u)) b) then [t] else [])"
proof -
  have "filter (\<lambda>j. ex (track_id (h ((b @ [t]) ! j))) = None \<and>
                    track_id (h ((b @ [t]) ! j)) \<notin> set (map (\<lambda>t. track_id (h t)) (take j (b @ [t]))))
          [0..<length b]
      = filter (\<lambda>j. ex (track_id (h (b ! j))) = None \<and>
                    track_id (h (b ! j)) \<notin> set (map (\<lambda>t. track_id (h t)) (take j b)))
          [0..<length b]"
    by (rule filter_cong) (auto simp: nth_append)
  moreover have "map ((!) (b @ [t])) (filter P [0..<length b]) = map ((!) b) (filter P [0..<length b])" for P
    by (rule map_cong) (auto simp: nth_append)
  ultimately show ?thesis
    by (simp add: new_ids_def)
qed

lemma merge_list_b_eq:
  "merge_list_b h b (ex, ms) =
     (\<lambda>k. if k \<in> set (map (\<lambda>t. track_id (h t)) b) \<and> ex k = None then Some True else ex k,
      ms @ new_ids h ex b)"
proof (induction b rule: rev_induct)
  case Nil
  then show ?case by (simp add: new_ids_def)
next
  case (snoc t b)
  show ?case
    by (auto simp: merge_list_b_snoc snoc.IH new_ids_snoc fun_eq_iff split: if_splits)
qed

lemma merge_track_lists_eq:
  "merge_track_lists h a b = a @ kept_lost h a b"
proof -
  have "new_ids h (\<lambda>k. if k \<in> set (map (\<lambda>t. track_id (h t)) a) then Some True else None) b = kept_lost h a b"
    by (simp add: new_ids_def kept_lost_def cong: conj_cong)
  then show ?thesis
    by (simp add: merge_track_lists_def merge_list_a_eq merge_list_b_eq)
qed

text \<open>
  The pool in general: the activated tracks of the tracked list, then those lost tracks
  whose id occurs neither among them nor earlier in the lost list. The tracks are read
  after the loop over the detections, which has changed nothing below the first unused
  address.
\<close>

lemma track_pool:
  assumes "track ops bt mem detections frame = Returned r"
  shows
    "tracked_tracks r = filter (\<lambda>t. is_activated (objs_after_detections r t)) (m_tracked_tracks bt) \<and>
     tracks_pool r =
       tracked_tracks r @ kept_lost (objs_after_detections r) (tracked_tracks r) (m_lost_tracks bt) \<and>
     objs_before_first r =
       Track_multi_gmc ops (unconfirmed_tracks r)
         (fst (GMC_apply ops (m_gmc_algo bt) frame (detections_after r)))
         (Track_multi_gmc ops (tracks_pool r)
            (fst (GMC_apply ops (m_gmc_algo bt) frame (detections_after r)))
            (Track_multi_predict ops (tracks_pool r) (m_kalman_filter bt) (objs_after_detections r))) \<and>
     (\<forall>a < brk mem. objs_after_detections r a = objs mem a)"
proof -
  from assms show ?thesis
  proof (rule track_Returned_associate)
    fix st
    assume dl: "detection_loop ops (bt\<lparr>m_frame_id := next_frame_id ops bt\<rparr>) frame detections
       \<lparr>dl_mem = mem, dl_visited = [], dl_high = [], dl_low = []\<rparr> = (st, None)"
    assume "associate ops
       (bt\<lparr>m_frame_id := next_frame_id ops bt,
            m_gmc_algo := snd (GMC_apply ops (m_gmc_algo bt) frame (dl_visited st))\<rparr>)
       (dl_mem st) (dl_visited st) (dl_high st) (dl_low st)
       (filter (\<lambda>t. \<not> is_activated (objs (dl_mem st) t)) (m_tracked_tracks bt))
       (filter (\<lambda>t. is_activated (objs (dl_mem st) t)) (m_tracked_tracks bt))
       (merge_track_lists (objs (dl_mem st))
          (filter (\<lambda>t. is_activated (objs (dl_mem st) t)) (m_tracked_tracks bt)) (m_lost_tracks bt))
       (Track_multi_gmc ops (filter (\<lambda>t. \<not> is_activated (objs (dl_mem st) t)) (m_tracked_tracks bt))
          (fst (GMC_apply ops (m_gmc_algo bt) frame (dl_visited st)))
          (Track_multi_gmc ops
             (merge_track_lists (objs (dl_mem st))
                (filter (\<lambda>t. is_activated (objs (dl_mem st) t)) (m_tracked_tracks bt)) (m_lost_tracks bt))
             (fst (GMC_apply ops (m_gmc_algo bt) frame (dl_visited st)))
             (Track_multi_predict ops
                (merge_track_lists (objs (dl_mem st))
                   (filter (\<lambda>t. is_activated (objs (dl_mem st) t)) (m_tracked_tracks bt)) (m_lost_tracks bt))
                (m_kalman_filter bt) (objs (dl_mem st)))))
     = Returned r"
    from associate_Returned[OF this] associate_loops(4)[OF this] detection_loop_None[OF dl]
    show ?thesis
      by (simp add: merge_track_lists_eq)
  qed
qed

text \<open>
  When the lost tracks have pairwise different ids, none of them has its id earlier in
  the lost list, and those kept are the ones whose id no confirmed track has.
\<close>

lemma kept_lost_distinct:
  assumes "distinct (map (\<lambda>t. track_id (h t)) lost)"
  shows "kept_lost h confirmed lost =
     filter (\<lambda>t. track_id (h t) \<notin> set (map (\<lambda>u. track_id (h u)) confirmed)) lost"
proof -
  let ?P = "\<lambda>t. track_id (h t) \<notin> set (map (\<lambda>u. track_id (h u)) confirmed)"
  have early: "track_id (h (lost ! j)) \<notin> set (map (\<lambda>t. track_id (h t)) (take j lost))"
    if j: "j < length lost" for j
  proof
    assume "track_id (h (lost ! j)) \<in> set (map (\<lambda>t. track_id (h t)) (take j lost))"
    then obtain i where i: "i < length (take j lost)"
      and e: "map (\<lambda>t. track_id (h t)) (take j lost) ! i = track_id (h (lost ! j))"
      unfolding in_set_conv_nth by auto
    from i j have ij: "i < j" "i < length lost"
      by simp_all
    with e j have "map (\<lambda>t. track_id (h t)) lost ! i = map (\<lambda>t. track_id (h t)) lost ! j"
      by simp
    moreover from ij j have "i < length (map (\<lambda>t. track_id (h t)) lost)"
      and "j < length (map (\<lambda>t. track_id (h t)) lost)"
      by simp_all
    ultimately have "i = j"
      using assms by (simp only: nth_eq_iff_index_eq)
    with ij show False
      by simp
  qed
  have "filter (\<lambda>j. ?P (lost ! j) \<and>
            track_id (h (lost ! j)) \<notin> set (map (\<lambda>t. track_id (h t)) (take j lost))) [0..<length lost]
      = filter (\<lambda>j. ?P (lost ! j)) [0..<length lost]"
    using early by (intro filter_cong) auto
  then have "kept_lost h confirmed lost = map ((!) lost) (filter (?P \<circ> (!) lost) [0..<length lost])"
    by (simp add: kept_lost_def comp_def)
  also have "\<dots> = filter ?P (map ((!) lost) [0..<length lost])"
    by (simp only: filter_map)
  also have "map ((!) lost) [0..<length lost] = lost"
    by (rule map_nth)
  finally show ?thesis .
qed

text \<open>
  C7. The list \<^verbatim>\<open>tracked_tracks\<close> holds the activated tracks of the tracked pool, in
  order. When the lost tracks have pairwise different ids, the prediction pool is this
  list followed by those lost tracks whose id no track of that list has, in order: on
  a tie of ids the confirmed track is kept and the lost one dropped.
  \<^verbatim>\<open>Track::multi_predict\<close> is called with this pool, and the motion compensation with
  the pool and then with the unconfirmed tracks. The tracks are those the caller's
  memory holds: the loop over the detections, which comes first, changes nothing
  below the first unused address.
\<close>

theorem prediction_pool:
  assumes "track ops bt mem detections frame = Returned r"
    and "wf_state bt mem"
    and "distinct (map (\<lambda>t. track_id (objs mem t)) (m_lost_tracks bt))"
  shows
    "tracked_tracks r = filter (\<lambda>t. is_activated (objs mem t)) (m_tracked_tracks bt) \<and>
     tracks_pool r =
       tracked_tracks r @
       filter (\<lambda>t. track_id (objs mem t) \<notin> set (map (\<lambda>u. track_id (objs mem u)) (tracked_tracks r)))
         (m_lost_tracks bt) \<and>
     objs_before_first r =
       Track_multi_gmc ops (unconfirmed_tracks r)
         (fst (GMC_apply ops (m_gmc_algo bt) frame (detections_after r)))
         (Track_multi_gmc ops (tracks_pool r)
            (fst (GMC_apply ops (m_gmc_algo bt) frame (detections_after r)))
            (Track_multi_predict ops (tracks_pool r) (m_kalman_filter bt) (objs_after_detections r))) \<and>
     (\<forall>a < brk mem. objs_after_detections r a = objs mem a)"
proof -
  let ?h = "objs_after_detections r"
  note p = track_pool[OF assms(1)]
  from p have same: "?h a = objs mem a" if "a < brk mem" for a
    using that by simp
  from assms(2) have tr: "a < brk mem" if "a \<in> set (m_tracked_tracks bt)" for a
    using that by (simp add: wf_state_def)
  from assms(2) have lo: "a < brk mem" if "a \<in> set (m_lost_tracks bt)" for a
    using that by (simp add: wf_state_def)
  have t: "tracked_tracks r = filter (\<lambda>t. is_activated (objs mem t)) (m_tracked_tracks bt)"
  proof -
    from p have "tracked_tracks r = filter (\<lambda>t. is_activated (?h t)) (m_tracked_tracks bt)"
      by simp
    also have "\<dots> = filter (\<lambda>t. is_activated (objs mem t)) (m_tracked_tracks bt)"
      by (rule filter_cong) (simp_all add: same tr)
    finally show ?thesis .
  qed
  have conf: "a < brk mem" if "a \<in> set (tracked_tracks r)" for a
    using that tr by (simp add: t)
  have ids: "map (\<lambda>u. track_id (?h u)) (tracked_tracks r) =
      map (\<lambda>u. track_id (objs mem u)) (tracked_tracks r)"
    by (rule map_cong) (simp_all add: same conf)
  have lids: "map (\<lambda>t. track_id (?h t)) (m_lost_tracks bt) =
      map (\<lambda>t. track_id (objs mem t)) (m_lost_tracks bt)"
    by (rule map_cong) (simp_all add: same lo)
  from assms(3) have "distinct (map (\<lambda>t. track_id (?h t)) (m_lost_tracks bt))"
    by (simp only: lids)
  from kept_lost_distinct[OF this]
  have "kept_lost ?h (tracked_tracks r) (m_lost_tracks bt) =
      filter (\<lambda>t. track_id (?h t) \<notin> set (map (\<lambda>u. track_id (?h u)) (tracked_tracks r))) (m_lost_tracks bt)" .
  also have "\<dots> =
      filter (\<lambda>t. track_id (objs mem t) \<notin> set (map (\<lambda>u. track_id (objs mem u)) (tracked_tracks r)))
        (m_lost_tracks bt)"
    unfolding ids by (rule filter_cong) (simp_all add: same lo)
  finally have k: "kept_lost ?h (tracked_tracks r) (m_lost_tracks bt) =
      filter (\<lambda>t. track_id (objs mem t) \<notin> set (map (\<lambda>u. track_id (objs mem u)) (tracked_tracks r)))
        (m_lost_tracks bt)" .
  from p have pool: "tracks_pool r =
       tracked_tracks r @ kept_lost ?h (tracked_tracks r) (m_lost_tracks bt)"
    by simp
  from p have pred: "objs_before_first r =
       Track_multi_gmc ops (unconfirmed_tracks r)
         (fst (GMC_apply ops (m_gmc_algo bt) frame (detections_after r)))
         (Track_multi_gmc ops (tracks_pool r)
            (fst (GMC_apply ops (m_gmc_algo bt) frame (detections_after r)))
            (Track_multi_predict ops (tracks_pool r) (m_kalman_filter bt) (objs_after_detections r)))"
    by simp
  from p have below: "\<forall>a < brk mem. objs_after_detections r a = objs mem a"
    by simp
  show ?thesis
    by (intro conjI t pool[unfolded k] pred below)
qed

theorem prediction_pool_witness:
  "wf_state (sample_tracker\<lparr>m_tracked_tracks := [0, 1], m_lost_tracks := [2, 3]\<rparr>)
     (sample_memory [sample_track 1 Tracked 10, (sample_track 2 Tracked 200)\<lparr>is_activated := False\<rparr>,
                     sample_track 1 Lost 14, sample_track 3 Lost 400]) \<and>
   (case returned (track sample_ops
     (sample_tracker\<lparr>m_tracked_tracks := [0, 1], m_lost_tracks := [2, 3]\<rparr>)
     (sample_memory [sample_track 1 Tracked 10, (sample_track 2 Tracked 200)\<lparr>is_activated := False\<rparr>,
                     sample_track 1 Lost 14, sample_track 3 Lost 400])
     [] sample_frame) of
      None \<Rightarrow> False
    | Some r \<Rightarrow> tracked_tracks r = [0] \<and> tracks_pool r = [0, 3])"
proof -
  let ?bt = "sample_tracker\<lparr>m_tracked_tracks := [0, 1], m_lost_tracks := [2, 3]\<rparr>"
  let ?mem = "sample_memory [sample_track 1 Tracked 10, (sample_track 2 Tracked 200)\<lparr>is_activated := False\<rparr>,
                     sample_track 1 Lost 14, sample_track 3 Lost 400]"
  obtain r where r: "track sample_ops ?bt ?mem [] sample_frame = Returned r"
    by (simp add: eval_defs)
  have wf: "wf_state ?bt ?mem"
    by (simp add: wf_state_def sample_tracker_def sample_memory_def)
  have d: "distinct (map (\<lambda>t. track_id (objs ?mem t)) (m_lost_tracks ?bt))"
    by (simp add: sample_tracker_def sample_memory_def sample_track_def)
  note p = prediction_pool[OF r wf d]
  from p have t: "tracked_tracks r = [0]"
    by (simp add: sample_memory_def sample_tracker_def sample_track_def)
  from p have "tracks_pool r = [0, 3]"
    by (simp add: t sample_memory_def sample_tracker_def sample_track_def)
  with r t wf show ?thesis
    by (simp add: returned_def)
qed

section \<open>The first association\<close>

lemma update_matched_distinct:
  assumes "update_matched ops kf fid trks dets ms st = Some st'"
    and "distinct (map (matched_track trks) ms)"
    and "\<forall>m \<in> set ms. \<forall>m' \<in> set ms. matched_detection dets m \<noteq> matched_track trks m'"
  shows "al_activated st' = al_activated st @
           map (matched_track trks) (filter (\<lambda>m. state (al_objs st (matched_track trks m)) = Tracked) ms)
       \<and> al_refind st' = al_refind st @
           map (matched_track trks) (filter (\<lambda>m. state (al_objs st (matched_track trks m)) \<noteq> Tracked) ms)
       \<and> (\<forall>m \<in> set ms. in_range (fst m) trks \<and> in_range (snd m) dets \<and>
             al_objs st' (matched_track trks m) =
               updated_track ops kf fid (al_objs st (matched_track trks m))
                 (al_objs st (matched_detection dets m)))
       \<and> (\<forall>a. a \<notin> matched_track trks ` set ms \<longrightarrow> al_objs st' a = al_objs st a)"
  using assms
proof (induction ms arbitrary: st)
  case Nil
  then show ?case by simp
next
  case (Cons m ms)
  let ?t = "matched_track trks m" and ?d = "matched_detection dets m"
  let ?h = "al_objs st"
  define st1 where "st1 = update_step ops kf fid ?t ?d st"
  from Cons.prems(1) have rng: "in_range (fst m) trks \<and> in_range (snd m) dets"
    by (auto split: if_splits)
  with Cons.prems(1) have step: "update_matched ops kf fid trks dets ms st1 = Some st'"
    by (simp add: st1_def matched_track_def matched_detection_def)
  have obj1: "al_objs st1 = ?h(?t := updated_track ops kf fid (?h ?t) (?h ?d))"
    by (simp add: st1_def update_step_def updated_track_def Let_def)
  have act1: "al_activated st1 = al_activated st @ (if state (?h ?t) = Tracked then [?t] else [])"
    and ref1: "al_refind st1 = al_refind st @ (if state (?h ?t) \<noteq> Tracked then [?t] else [])"
    by (simp_all add: st1_def update_step_def Let_def)
  from Cons.prems(2) have dist: "distinct (map (matched_track trks) ms)"
    and fresh: "?t \<notin> matched_track trks ` set ms"
    by simp_all
  from Cons.prems(3) have sep: "\<forall>m \<in> set ms. \<forall>m' \<in> set ms. matched_detection dets m \<noteq> matched_track trks m'"
    and sep_t: "\<forall>m' \<in> set ms. matched_detection dets m' \<noteq> ?t"
    by simp_all
  note IH = Cons.IH[OF step dist sep]
  have same_t: "al_objs st1 (matched_track trks m') = ?h (matched_track trks m')"
    if "m' \<in> set ms" for m'
  proof -
    from that have "matched_track trks m' \<in> matched_track trks ` set ms"
      by (rule imageI)
    with fresh have "matched_track trks m' \<noteq> ?t"
      by metis
    then show ?thesis
      by (simp add: obj1)
  qed
  have same_d: "al_objs st1 (matched_detection dets m') = ?h (matched_detection dets m')"
    if "m' \<in> set ms" for m'
  proof -
    from that sep_t have "matched_detection dets m' \<noteq> ?t"
      by blast
    then show ?thesis
      by (simp add: obj1)
  qed
  have filt: "filter (\<lambda>m. P (state (al_objs st1 (matched_track trks m)))) ms
            = filter (\<lambda>m. P (state (?h (matched_track trks m)))) ms" for P
    by (rule filter_cong) (simp_all add: same_t)
  have c1: "al_activated st' = al_activated st @
           map (matched_track trks) (filter (\<lambda>m. state (?h (matched_track trks m)) = Tracked) (m # ms))"
    using IH filt[of "\<lambda>s. s = Tracked"] by (simp add: act1)
  have c2: "al_refind st' = al_refind st @
           map (matched_track trks) (filter (\<lambda>m. state (?h (matched_track trks m)) \<noteq> Tracked) (m # ms))"
    using IH filt[of "\<lambda>s. s \<noteq> Tracked"] by (simp add: ref1)
  have c3: "\<forall>m' \<in> set (m # ms). in_range (fst m') trks \<and> in_range (snd m') dets \<and>
             al_objs st' (matched_track trks m') =
               updated_track ops kf fid (?h (matched_track trks m')) (?h (matched_detection dets m'))"
  proof
    fix m' assume "m' \<in> set (m # ms)"
    then consider "m' = m" | "m' \<in> set ms" by auto
    then show "in_range (fst m') trks \<and> in_range (snd m') dets \<and>
             al_objs st' (matched_track trks m') =
               updated_track ops kf fid (?h (matched_track trks m')) (?h (matched_detection dets m'))"
    proof cases
      case 1
      from IH fresh have "al_objs st' ?t = al_objs st1 ?t" by blast
      with 1 rng show ?thesis by (simp add: obj1)
    next
      case 2
      with IH same_t same_d show ?thesis by simp
    qed
  qed
  have c4: "\<forall>a. a \<notin> matched_track trks ` set (m # ms) \<longrightarrow> al_objs st' a = ?h a"
    using IH by (auto simp: obj1)
  from c1 c2 c3 c4 show ?case by blast
qed

lemma update_matched_in_range:
  "update_matched ops kf fid trks dets ms st = Some st' \<Longrightarrow>
     \<forall>m \<in> set ms. in_range (fst m) trks \<and> in_range (snd m) dets"
proof (induction ms arbitrary: st)
  case Nil
  then show ?case by simp
next
  case (Cons m ms)
  from Cons.prems have rng: "in_range (fst m) trks \<and> in_range (snd m) dets"
    by (auto split: if_splits)
  with Cons.prems obtain st1 where "update_matched ops kf fid trks dets ms st1 = Some st'"
    by (auto simp: Let_def split: if_splits)
  from Cons.IH[OF this] rng show ?case by simp
qed

lemma in_range_nth:
  assumes "in_range i xs"
  shows "0 \<le> i" "nat i < length xs" "xs ! nat i \<in> set xs"
proof -
  from assms show "0 \<le> i" and l: "nat i < length xs"
    by (simp_all add: in_range_def nat_less_iff)
  then show "xs ! nat i \<in> set xs"
    by simp
qed

lemma distinct_matched_tracks:
  assumes "distinct trks" "distinct (map fst ms)" "\<forall>m \<in> set ms. in_range (fst m) trks"
  shows "distinct (map (matched_track trks) ms)"
proof -
  have inj: "inj_on (\<lambda>i. trks ! nat i) (set (map fst ms))"
  proof (rule inj_onI)
    fix i j assume i: "i \<in> set (map fst ms)" and j: "j \<in> set (map fst ms)"
      and eq: "trks ! nat i = trks ! nat j"
    from i j assms(3) have "in_range i trks" "in_range j trks"
      by auto
    then have "0 \<le> i" "0 \<le> j" "nat i < length trks" "nat j < length trks"
      by (simp_all add: in_range_nth)
    with eq assms(1) show "i = j"
      by (simp add: nth_eq_iff_index_eq)
  qed
  have "distinct (map (\<lambda>i. trks ! nat i) (map fst ms))"
    by (rule distinct_map[THEN iffD2]) (use assms(2) inj in blast)
  moreover have "map (\<lambda>i. trks ! nat i) (map fst ms) = map (matched_track trks) ms"
    by (simp add: matched_track_def)
  ultimately show ?thesis
    by (simp only:)
qed

lemma kept_lost_subset: "set (kept_lost h a b) \<subseteq> set b"
  by (auto simp: kept_lost_def)

lemma tracklets_above: "a \<in> set (tracklets thresh c b dets) \<Longrightarrow> b \<le> a"
  by (auto simp: tracklets_mem)

lemma pool_below_tracklets:
  assumes "track ops bt mem detections frame = Returned r" and "wf_state bt mem"
  shows "\<forall>t \<in> set (tracks_pool r). t < brk mem"
    and "\<forall>d \<in> set (detections_high_conf r). brk mem \<le> d"
    and "\<forall>d \<in> set (detections_low_conf r). brk mem \<le> d"
proof -
  from track_pool[OF assms(1)]
  have "set (tracks_pool r) \<subseteq> set (m_tracked_tracks bt) \<union> set (m_lost_tracks bt)"
    using kept_lost_subset[of "objs_after_detections r" "tracked_tracks r" "m_lost_tracks bt"]
    by auto
  with assms(2) show "\<forall>t \<in> set (tracks_pool r). t < brk mem"
    by (auto simp: wf_state_def)
  show "\<forall>d \<in> set (detections_high_conf r). brk mem \<le> d"
    and "\<forall>d \<in> set (detections_low_conf r). brk mem \<le> d"
    by (auto simp: track_tracklets[OF assms(1)] dest: tracklets_above)
qed

lemma track_first_loop:
  assumes "track ops bt mem detections frame = Returned r"
  shows "update_matched ops (m_kalman_filter bt) (next_frame_id ops bt) (tracks_pool r)
           (detections_high_conf r) (matches (first_associations r))
           \<lparr>al_objs = objs_before_first r, al_activated = [], al_refind = []\<rparr>
         = Some (after_first r)"
  using assms
proof (rule track_Returned_associate)
  fix st
  assume "associate ops
       (bt\<lparr>m_frame_id := next_frame_id ops bt,
            m_gmc_algo := snd (GMC_apply ops (m_gmc_algo bt) frame (dl_visited st))\<rparr>)
       (dl_mem st) (dl_visited st) (dl_high st) (dl_low st)
       (filter (\<lambda>t. \<not> is_activated (objs (dl_mem st) t)) (m_tracked_tracks bt))
       (filter (\<lambda>t. is_activated (objs (dl_mem st) t)) (m_tracked_tracks bt))
       (merge_track_lists (objs (dl_mem st))
          (filter (\<lambda>t. is_activated (objs (dl_mem st) t)) (m_tracked_tracks bt)) (m_lost_tracks bt))
       (Track_multi_gmc ops (filter (\<lambda>t. \<not> is_activated (objs (dl_mem st) t)) (m_tracked_tracks bt))
          (fst (GMC_apply ops (m_gmc_algo bt) frame (dl_visited st)))
          (Track_multi_gmc ops
             (merge_track_lists (objs (dl_mem st))
                (filter (\<lambda>t. is_activated (objs (dl_mem st) t)) (m_tracked_tracks bt)) (m_lost_tracks bt))
             (fst (GMC_apply ops (m_gmc_algo bt) frame (dl_visited st)))
             (Track_multi_predict ops
                (merge_track_lists (objs (dl_mem st))
                   (filter (\<lambda>t. is_activated (objs (dl_mem st) t)) (m_tracked_tracks bt)) (m_lost_tracks bt))
                (m_kalman_filter bt) (objs (dl_mem st)))))
     = Returned r"
  from associate_loops(1)[OF this] associate_Returned[OF this]
  show ?thesis by simp
qed

lemma first_association_result:
  assumes "track ops bt mem detections frame = Returned r"
    and "wf_state bt mem"
    and "distinct (tracks_pool r)"
    and "distinct (map fst (matches (first_associations r)))"
  shows
    "al_activated (after_first r) =
       map (matched_track (tracks_pool r))
         (filter (\<lambda>m. state (objs_before_first r (matched_track (tracks_pool r) m)) = Tracked)
            (matches (first_associations r))) \<and>
     al_refind (after_first r) =
       map (matched_track (tracks_pool r))
         (filter (\<lambda>m. state (objs_before_first r (matched_track (tracks_pool r) m)) \<noteq> Tracked)
            (matches (first_associations r))) \<and>
     (\<forall>m \<in> set (matches (first_associations r)).
        in_range (fst m) (tracks_pool r) \<and> in_range (snd m) (detections_high_conf r) \<and>
        al_objs (after_first r) (matched_track (tracks_pool r) m) =
          (if state (objs_before_first r (matched_track (tracks_pool r) m)) = Tracked
           then Track_update ops (objs_before_first r (matched_track (tracks_pool r) m))
                  (m_kalman_filter bt)
                  (objs_before_first r (matched_detection (detections_high_conf r) m))
                  (next_frame_id ops bt)
           else Track_re_activate ops (objs_before_first r (matched_track (tracks_pool r) m))
                  (m_kalman_filter bt)
                  (objs_before_first r (matched_detection (detections_high_conf r) m))
                  (next_frame_id ops bt) False)) \<and>
     ((\<forall>t d. track_id (Track_re_activate ops t (m_kalman_filter bt) d (next_frame_id ops bt) False)
              = track_id t) \<longrightarrow>
      (\<forall>m \<in> set (matches (first_associations r)).
         state (objs_before_first r (matched_track (tracks_pool r) m)) \<noteq> Tracked \<longrightarrow>
         track_id (al_objs (after_first r) (matched_track (tracks_pool r) m)) =
           track_id (objs_before_first r (matched_track (tracks_pool r) m))))"
proof -
  let ?ms = "matches (first_associations r)"
  note loop = track_first_loop[OF assms(1)]
  from update_matched_in_range[OF loop]
  have rng: "\<forall>m \<in> set ?ms. in_range (fst m) (tracks_pool r) \<and> in_range (snd m) (detections_high_conf r)" .
  then have d: "distinct (map (matched_track (tracks_pool r)) ?ms)"
    using assms(3,4) by (intro distinct_matched_tracks) simp_all
  have sep: "\<forall>m \<in> set ?ms. \<forall>m' \<in> set ?ms.
      matched_detection (detections_high_conf r) m \<noteq> matched_track (tracks_pool r) m'"
  proof (intro ballI)
    fix m m' assume m: "m \<in> set ?ms" and m': "m' \<in> set ?ms"
    from rng m have "matched_detection (detections_high_conf r) m \<in> set (detections_high_conf r)"
      by (simp add: matched_detection_def in_range_nth)
    with pool_below_tracklets(2)[OF assms(1,2)]
    have "brk mem \<le> matched_detection (detections_high_conf r) m" by blast
    moreover from rng m' have "matched_track (tracks_pool r) m' \<in> set (tracks_pool r)"
      by (simp add: matched_track_def in_range_nth)
    with pool_below_tracklets(1)[OF assms(1,2)]
    have "matched_track (tracks_pool r) m' < brk mem" by blast
    ultimately show "matched_detection (detections_high_conf r) m \<noteq> matched_track (tracks_pool r) m'"
      by simp
  qed
  note main = update_matched_distinct[OF loop d sep, unfolded updated_track_def]
  have "track_id (al_objs (after_first r) (matched_track (tracks_pool r) m)) =
           track_id (objs_before_first r (matched_track (tracks_pool r) m))"
    if "\<forall>t d. track_id (Track_re_activate ops t (m_kalman_filter bt) d (next_frame_id ops bt) False)
              = track_id t"
      and "m \<in> set ?ms"
      and "state (objs_before_first r (matched_track (tracks_pool r) m)) \<noteq> Tracked" for m
    using main that by simp
  with main show ?thesis
    by simp
qed


lemma update_matched_append:
  "update_matched ops kf fid trks dets (ms1 @ ms2) st =
     (case update_matched ops kf fid trks dets ms1 st of
        None \<Rightarrow> None
      | Some st1 \<Rightarrow> update_matched ops kf fid trks dets ms2 st1)"
  by (induction ms1 arbitrary: st) simp_all

lemma update_matched_nth:
  assumes "update_matched ops kf fid trks dets ms st0 = Some st'" and "i < length ms"
  shows "\<exists>st. update_matched ops kf fid trks dets (take i ms) st0 = Some st \<and>
           in_range (fst (ms ! i)) trks \<and> in_range (snd (ms ! i)) dets \<and>
           update_matched ops kf fid trks dets (take (Suc i) ms) st0 =
             Some (update_step ops kf fid (matched_track trks (ms ! i)) (matched_detection dets (ms ! i)) st)"
proof -
  from assms(2) have ms: "ms = take i ms @ ms ! i # drop (Suc i) ms"
    by (simp add: id_take_nth_drop)
  from assms(1) have "update_matched ops kf fid trks dets (take i ms @ ms ! i # drop (Suc i) ms) st0 = Some st'"
    by (simp only: ms[symmetric])
  then obtain st where st: "update_matched ops kf fid trks dets (take i ms) st0 = Some st"
    and rest: "update_matched ops kf fid trks dets (ms ! i # drop (Suc i) ms) st = Some st'"
    by (auto simp: update_matched_append split: option.splits)
  from rest have rng: "in_range (fst (ms ! i)) trks \<and> in_range (snd (ms ! i)) dets"
    by (auto split: if_splits)
  from assms(2) have "take (Suc i) ms = take i ms @ [ms ! i]"
    by (simp add: take_Suc_conv_app_nth)
  with st rng have "update_matched ops kf fid trks dets (take (Suc i) ms) st0 =
             Some (update_step ops kf fid (matched_track trks (ms ! i)) (matched_detection dets (ms ! i)) st)"
    by (simp add: update_matched_append matched_track_def matched_detection_def)
  with st rng show ?thesis by blast
qed

text \<open>
  C8. The loop over the matches of the first association takes the matches in order
  and ends in \<open>after_first\<close>. For the match at position \<open>i\<close>, with \<open>st\<close> the
  state of the loop when it is reached: its indices are in range; if the track's
  state is Tracked, the track is replaced by the result of \<^verbatim>\<open>update\<close> with the Kalman
  filter, the matched detection and the new value of the frame counter, and is appended to the
  activated list; otherwise it is replaced by the result of \<^verbatim>\<open>re_activate\<close> with the
  same arguments and \<^verbatim>\<open>new_id = false\<close>, and is appended to the refind list.
  In a tracker whose pointers are valid, whose pool holds no track twice and whose
  solver matches no track twice, this determines the result from the state before the
  loop: the activated list holds the matched tracks that were Tracked, the refind
  list the other matched tracks, both in the order of the matches, and each matched
  track is the result of the one call made for it. Where \<^verbatim>\<open>re_activate\<close> keeps the id
  of a track when it is told \<^verbatim>\<open>new_id = false\<close>, the re-activated tracks keep their
  ids.
\<close>

theorem first_association_updates:
  assumes "track ops bt mem detections frame = Returned r"
  shows
    "update_matched ops (m_kalman_filter bt) (next_frame_id ops bt) (tracks_pool r)
       (detections_high_conf r) (matches (first_associations r))
       \<lparr>al_objs = objs_before_first r, al_activated = [], al_refind = []\<rparr> = Some (after_first r) \<and>
     (\<forall>i < length (matches (first_associations r)).
        \<exists>st. update_matched ops (m_kalman_filter bt) (next_frame_id ops bt) (tracks_pool r)
               (detections_high_conf r) (take i (matches (first_associations r)))
               \<lparr>al_objs = objs_before_first r, al_activated = [], al_refind = []\<rparr> = Some st \<and>
             in_range (fst (matches (first_associations r) ! i)) (tracks_pool r) \<and>
             in_range (snd (matches (first_associations r) ! i)) (detections_high_conf r) \<and>
             update_matched ops (m_kalman_filter bt) (next_frame_id ops bt) (tracks_pool r)
               (detections_high_conf r) (take (Suc i) (matches (first_associations r)))
               \<lparr>al_objs = objs_before_first r, al_activated = [], al_refind = []\<rparr> =
             Some
               (if state (al_objs st (matched_track (tracks_pool r) (matches (first_associations r) ! i)))
                   = Tracked
                then st\<lparr>al_objs := (al_objs st)
                          (matched_track (tracks_pool r) (matches (first_associations r) ! i) :=
                             Track_update ops
                               (al_objs st (matched_track (tracks_pool r) (matches (first_associations r) ! i)))
                               (m_kalman_filter bt)
                               (al_objs st
                                  (matched_detection (detections_high_conf r) (matches (first_associations r) ! i)))
                               (next_frame_id ops bt)),
                        al_activated := al_activated st @
                          [matched_track (tracks_pool r) (matches (first_associations r) ! i)]\<rparr>
                else st\<lparr>al_objs := (al_objs st)
                          (matched_track (tracks_pool r) (matches (first_associations r) ! i) :=
                             Track_re_activate ops
                               (al_objs st (matched_track (tracks_pool r) (matches (first_associations r) ! i)))
                               (m_kalman_filter bt)
                               (al_objs st
                                  (matched_detection (detections_high_conf r) (matches (first_associations r) ! i)))
                               (next_frame_id ops bt) False),
                        al_refind := al_refind st @
                          [matched_track (tracks_pool r) (matches (first_associations r) ! i)]\<rparr>)) \<and>
     (wf_state bt mem \<and> distinct (tracks_pool r) \<and> distinct (map fst (matches (first_associations r))) \<longrightarrow>
        al_activated (after_first r) =
          map (matched_track (tracks_pool r))
            (filter (\<lambda>m. state (objs_before_first r (matched_track (tracks_pool r) m)) = Tracked)
               (matches (first_associations r))) \<and>
        al_refind (after_first r) =
          map (matched_track (tracks_pool r))
            (filter (\<lambda>m. state (objs_before_first r (matched_track (tracks_pool r) m)) \<noteq> Tracked)
               (matches (first_associations r))) \<and>
        (\<forall>m \<in> set (matches (first_associations r)).
           al_objs (after_first r) (matched_track (tracks_pool r) m) =
             (if state (objs_before_first r (matched_track (tracks_pool r) m)) = Tracked
              then Track_update ops (objs_before_first r (matched_track (tracks_pool r) m))
                     (m_kalman_filter bt)
                     (objs_before_first r (matched_detection (detections_high_conf r) m))
                     (next_frame_id ops bt)
              else Track_re_activate ops (objs_before_first r (matched_track (tracks_pool r) m))
                     (m_kalman_filter bt)
                     (objs_before_first r (matched_detection (detections_high_conf r) m))
                     (next_frame_id ops bt) False)) \<and>
        ((\<forall>t d. track_id (Track_re_activate ops t (m_kalman_filter bt) d (next_frame_id ops bt) False)
                 = track_id t) \<longrightarrow>
         (\<forall>m \<in> set (matches (first_associations r)).
            state (objs_before_first r (matched_track (tracks_pool r) m)) \<noteq> Tracked \<longrightarrow>
            track_id (al_objs (after_first r) (matched_track (tracks_pool r) m)) =
              track_id (objs_before_first r (matched_track (tracks_pool r) m)))))"
proof (intro conjI impI allI)
  note loop = track_first_loop[OF assms]
  show "update_matched ops (m_kalman_filter bt) (next_frame_id ops bt) (tracks_pool r)
       (detections_high_conf r) (matches (first_associations r))
       \<lparr>al_objs = objs_before_first r, al_activated = [], al_refind = []\<rparr> = Some (after_first r)"
    by (rule loop)
  fix i assume "i < length (matches (first_associations r))"
  from update_matched_nth[OF loop this] obtain st where
    st: "update_matched ops (m_kalman_filter bt) (next_frame_id ops bt) (tracks_pool r)
           (detections_high_conf r) (take i (matches (first_associations r)))
           \<lparr>al_objs = objs_before_first r, al_activated = [], al_refind = []\<rparr> = Some st"
      "in_range (fst (matches (first_associations r) ! i)) (tracks_pool r)"
      "in_range (snd (matches (first_associations r) ! i)) (detections_high_conf r)"
      "update_matched ops (m_kalman_filter bt) (next_frame_id ops bt) (tracks_pool r)
           (detections_high_conf r) (take (Suc i) (matches (first_associations r)))
           \<lparr>al_objs = objs_before_first r, al_activated = [], al_refind = []\<rparr> =
         Some (update_step ops (m_kalman_filter bt) (next_frame_id ops bt)
                 (matched_track (tracks_pool r) (matches (first_associations r) ! i))
                 (matched_detection (detections_high_conf r) (matches (first_associations r) ! i)) st)"
    by blast
  show "\<exists>st. update_matched ops (m_kalman_filter bt) (next_frame_id ops bt) (tracks_pool r)
               (detections_high_conf r) (take i (matches (first_associations r)))
               \<lparr>al_objs = objs_before_first r, al_activated = [], al_refind = []\<rparr> = Some st \<and>
             in_range (fst (matches (first_associations r) ! i)) (tracks_pool r) \<and>
             in_range (snd (matches (first_associations r) ! i)) (detections_high_conf r) \<and>
             update_matched ops (m_kalman_filter bt) (next_frame_id ops bt) (tracks_pool r)
               (detections_high_conf r) (take (Suc i) (matches (first_associations r)))
               \<lparr>al_objs = objs_before_first r, al_activated = [], al_refind = []\<rparr> =
             Some
               (if state (al_objs st (matched_track (tracks_pool r) (matches (first_associations r) ! i)))
                   = Tracked
                then st\<lparr>al_objs := (al_objs st)
                          (matched_track (tracks_pool r) (matches (first_associations r) ! i) :=
                             Track_update ops
                               (al_objs st (matched_track (tracks_pool r) (matches (first_associations r) ! i)))
                               (m_kalman_filter bt)
                               (al_objs st
                                  (matched_detection (detections_high_conf r) (matches (first_associations r) ! i)))
                               (next_frame_id ops bt)),
                        al_activated := al_activated st @
                          [matched_track (tracks_pool r) (matches (first_associations r) ! i)]\<rparr>
                else st\<lparr>al_objs := (al_objs st)
                          (matched_track (tracks_pool r) (matches (first_associations r) ! i) :=
                             Track_re_activate ops
                               (al_objs st (matched_track (tracks_pool r) (matches (first_associations r) ! i)))
                               (m_kalman_filter bt)
                               (al_objs st
                                  (matched_detection (detections_high_conf r) (matches (first_associations r) ! i)))
                               (next_frame_id ops bt) False),
                        al_refind := al_refind st @
                          [matched_track (tracks_pool r) (matches (first_associations r) ! i)]\<rparr>)"
    using st unfolding update_step_def Let_def by blast
next
  assume "wf_state bt mem \<and> distinct (tracks_pool r) \<and> distinct (map fst (matches (first_associations r)))"
  then have h: "wf_state bt mem" "distinct (tracks_pool r)" "distinct (map fst (matches (first_associations r)))"
    by simp_all
  note res = first_association_result[OF assms h]
  from res show "al_activated (after_first r) =
          map (matched_track (tracks_pool r))
            (filter (\<lambda>m. state (objs_before_first r (matched_track (tracks_pool r) m)) = Tracked)
               (matches (first_associations r)))"
    by blast
  from res show "al_refind (after_first r) =
          map (matched_track (tracks_pool r))
            (filter (\<lambda>m. state (objs_before_first r (matched_track (tracks_pool r) m)) \<noteq> Tracked)
               (matches (first_associations r)))"
    by blast
  from res show "\<forall>m \<in> set (matches (first_associations r)).
           al_objs (after_first r) (matched_track (tracks_pool r) m) =
             (if state (objs_before_first r (matched_track (tracks_pool r) m)) = Tracked
              then Track_update ops (objs_before_first r (matched_track (tracks_pool r) m))
                     (m_kalman_filter bt)
                     (objs_before_first r (matched_detection (detections_high_conf r) m))
                     (next_frame_id ops bt)
              else Track_re_activate ops (objs_before_first r (matched_track (tracks_pool r) m))
                     (m_kalman_filter bt)
                     (objs_before_first r (matched_detection (detections_high_conf r) m))
                     (next_frame_id ops bt) False)"
    by blast
  assume "\<forall>t d. track_id (Track_re_activate ops t (m_kalman_filter bt) d (next_frame_id ops bt) False) = track_id t"
  with res show "\<forall>m \<in> set (matches (first_associations r)).
            state (objs_before_first r (matched_track (tracks_pool r) m)) \<noteq> Tracked \<longrightarrow>
            track_id (al_objs (after_first r) (matched_track (tracks_pool r) m)) =
              track_id (objs_before_first r (matched_track (tracks_pool r) m))"
    by blast
qed

theorem first_association_updates_witness:
  "(case returned (track sample_ops (sample_tracker\<lparr>m_tracked_tracks := [0], m_lost_tracks := [1]\<rparr>)
        (sample_memory [sample_track 1 Tracked 10, sample_track 2 Lost 200])
        [sample_detection 200 (7 / 8), sample_detection 10 (7 / 8)] sample_frame) of
      None \<Rightarrow> False
    | Some r \<Rightarrow>
        al_activated (after_first r) = [0] \<and> al_refind (after_first r) = [1] \<and>
        tracklet_len (al_objs (after_first r) 0) = 1 \<and>
        state (al_objs (after_first r) 1) = Tracked \<and>
        track_id (al_objs (after_first r) 1) = 2)"
proof -
  let ?bt = "sample_tracker\<lparr>m_tracked_tracks := [0], m_lost_tracks := [1]\<rparr>"
  let ?mem = "sample_memory [sample_track 1 Tracked 10, sample_track 2 Lost 200]"
  let ?dets = "[sample_detection 200 (7 / 8), sample_detection 10 (7 / 8)]"
  obtain r where r: "track sample_ops ?bt ?mem ?dets sample_frame = Returned r"
    by (simp add: eval_defs sample_frame_bounds)
  then have pool: "tracks_pool r = [0, 1]"
    and ms: "matches (first_associations r) = [(0, 1), (1, 0)]"
    and high: "detections_high_conf r = [2, 3]"
    and h0: "objs_before_first r 0 = sample_track 1 Tracked 10"
    and h1: "objs_before_first r (Suc 0) = sample_track 2 Lost 200"
    by (auto simp: eval_defs sample_frame_bounds)
  have wf: "wf_state ?bt ?mem"
    by (simp add: wf_state_def sample_tracker_def sample_memory_def)
  have d1: "distinct (tracks_pool r)" and d2: "distinct (map fst (matches (first_associations r)))"
    by (simp_all add: pool ms)
  from first_association_updates[OF r] wf d1 d2
  have "al_activated (after_first r) = [0] \<and> al_refind (after_first r) = [1] \<and>
        tracklet_len (al_objs (after_first r) 0) = 1 \<and>
        state (al_objs (after_first r) 1) = Tracked \<and>
        track_id (al_objs (after_first r) 1) = 2"
    by (simp add: pool ms high h0 h1 matched_track_def matched_detection_def sample_track_def
        sample_ops_def sample_update_def sample_re_activate_def)
  with r show ?thesis
    by (simp add: returned_def)
qed

section \<open>The second association\<close>

text \<open>
  The solver of the second association always gets the matrix without rows. A solver
  that names no row of such a matrix then leaves the second association without
  effect: no match, no track marked lost.
\<close>

lemma track_Returned_ex:
  assumes "track ops bt mem detections frame = Returned r"
  obtains bt' mem' dets high low unc trk pool h where
    "associate ops bt' mem' dets high low unc trk pool h = Returned r"
    "m_kalman_filter bt' = m_kalman_filter bt" "m_frame_id bt' = next_frame_id ops bt"
  using assms by (rule track_Returned_associate) (erule that, simp_all)

lemma associate_second_empty:
  assumes "associate ops bt mem dets high low unc trk pool h = Returned r" and "solver_rows ops"
  shows "matches (second_associations r) = [] \<and>
    unmatched_track_indices (second_associations r) = [] \<and>
    lost_tracks r = [] \<and>
    activated_tracks r = al_activated (after_first r) \<and>
    refind_tracks r = al_refind (after_first r) \<and>
    objs (memory_after r) = al_objs (after_first r)"
proof -
  have "mrows CostMatrix_default = 0"
    by (simp add: CostMatrix_default_def)
  with assms(2) have "matches (linear_assignment ops CostMatrix_default (Fin (1 / 2))) = []"
    and "unmatched_track_indices (linear_assignment ops CostMatrix_default (Fin (1 / 2))) = []"
    by (simp_all add: solver_rows_def)
  with assms(1) show ?thesis
    by (auto simp: associate_def Let_def split: option.splits)
qed

lemma second_association_empty:
  assumes "track ops bt mem detections frame = Returned r" and "solver_rows ops"
  shows "matches (second_associations r) = [] \<and>
    unmatched_track_indices (second_associations r) = [] \<and>
    lost_tracks r = [] \<and>
    activated_tracks r = al_activated (after_first r) \<and>
    refind_tracks r = al_refind (after_first r) \<and>
    objs (memory_after r) = al_objs (after_first r)"
  using assms(1) by (rule track_Returned_ex) (rule associate_second_empty[OF _ assms(2)])

text \<open>
  C1 (the code falls short of it). A tracker with one confirmed track in state Tracked
  gets a frame with one detection of confidence 1/4 and the box of the track. The
  track is unmatched after the first association, the detection is in the
  low-confidence list, and line 158 computes their IoU distance, a matrix with one row
  and one column. The matrix that line 162 hands to the solver is not that one: it is
  the empty matrix of the declaration in line 157.
\<close>

theorem second_association_solves_empty_matrix:
  "map_option unmatched_tracks_after_1st_association
     (returned (track sample_ops (sample_tracker\<lparr>m_tracked_tracks := [0]\<rparr>)
        (sample_memory [sample_track 1 Tracked 10]) [sample_detection 10 (1 / 4)] sample_frame))
   = Some [0] \<and>
   map_option detections_low_conf
     (returned (track sample_ops (sample_tracker\<lparr>m_tracked_tracks := [0]\<rparr>)
        (sample_memory [sample_track 1 Tracked 10]) [sample_detection 10 (1 / 4)] sample_frame))
   = Some [1] \<and>
   map_option line_158_value
     (returned (track sample_ops (sample_tracker\<lparr>m_tracked_tracks := [0]\<rparr>)
        (sample_memory [sample_track 1 Tracked 10]) [sample_detection 10 (1 / 4)] sample_frame))
   = Some \<lparr>mrows = 1, mcols = 1, coeffs = [Fin 0]\<rparr> \<and>
   map_option iou_dists_second
     (returned (track sample_ops (sample_tracker\<lparr>m_tracked_tracks := [0]\<rparr>)
        (sample_memory [sample_track 1 Tracked 10]) [sample_detection 10 (1 / 4)] sample_frame))
   = Some \<lparr>mrows = 0, mcols = 0, coeffs = []\<rparr>"
  by (simp add: eval_defs sample_frame_bounds)

text \<open>
  The same on a freshly constructed tracker, with the one detection of confidence 1/4:
  line 158 computes a matrix with no row and one column, and the solver gets the
  matrix of line 157, which has no column either.
\<close>

lemma line_158_value_dropped:
  "map_option line_158_value
     (returned (track sample_ops sample_tracker (sample_memory [])
        [sample_detection 10 (1 / 4)] sample_frame))
   = Some \<lparr>mrows = 0, mcols = 1, coeffs = []\<rparr> \<and>
   map_option iou_dists_second
     (returned (track sample_ops sample_tracker (sample_memory [])
        [sample_detection 10 (1 / 4)] sample_frame))
   = Some \<lparr>mrows = 0, mcols = 0, coeffs = []\<rparr>"
  by (simp add: eval_defs sample_frame_bounds)

section \<open>The tracks that are marked lost\<close>












section \<open>The value returned\<close>




section \<open>The retention bound\<close>

text \<open>Rounding to \<open>p\<close> bits moves a positive value by at most its \<open>2 ^ p\<close>-th part.\<close>

lemma scaled_ratio:
  assumes "0 < d"
  shows "0 < snd (scaled n d s)"
    and "real_of_int (fst (scaled n d s)) / real_of_int (snd (scaled n d s)) = (real_of_int n / real_of_int d) / 2 powi s"
    and "0 \<le> n \<Longrightarrow> 0 \<le> fst (scaled n d s)"
    and "0 < n \<Longrightarrow> 0 < fst (scaled n d s)"
proof -
  show "0 < snd (scaled n d s)"
    using assms by (simp add: scaled_def)
  show "real_of_int (fst (scaled n d s)) / real_of_int (snd (scaled n d s)) = (real_of_int n / real_of_int d) / 2 powi s"
  proof (cases "0 \<le> s")
    case True
    then show ?thesis
      by (simp add: scaled_def power_int_def)
  next
    case False
    then have "(2::real) powi s = 1 / 2 ^ nat (- s)"
      by (simp add: power_int_def field_simps)
    with False show ?thesis
      by (simp add: scaled_def)
  qed
  show "0 \<le> n \<Longrightarrow> 0 \<le> fst (scaled n d s)"
    by (simp add: scaled_def)
  show "0 < n \<Longrightarrow> 0 < fst (scaled n d s)"
    by (simp add: scaled_def)
qed

lemma rne_near:
  assumes "0 < d"
  shows "\<bar>real_of_int (rne n d) - real_of_int n / real_of_int d\<bar> \<le> 1 / 2"
proof -
  define q r where "q = n div d" and "r = n mod d"
  have n: "n = q * d + r"
    by (simp add: q_def r_def)
  have r: "0 \<le> r" "r < d"
    using assms by (simp_all add: r_def)
  have x: "real_of_int n / real_of_int d = real_of_int q + real_of_int r / real_of_int d"
    using assms by (simp add: n field_simps)
  have d: "0 < real_of_int d"
    using assms by simp
  consider "2 * r < d" | "d < 2 * r" | "2 * r = d" by linarith
  then show ?thesis
  proof cases
    case 1
    then have "rne n d = q"
      by (simp add: rne_def q_def r_def Let_def)
    moreover from 1 have "real_of_int r / real_of_int d \<le> 1 / 2"
      using d by (simp add: field_simps)
    moreover have "0 \<le> real_of_int r / real_of_int d"
      using r d by simp
    ultimately show ?thesis
      by (simp add: x)
  next
    case 2
    then have "rne n d = q + 1"
      by (simp add: rne_def q_def r_def Let_def)
    moreover from 2 have "1 / 2 \<le> real_of_int r / real_of_int d"
      using d by (simp add: field_simps)
    moreover have "real_of_int r / real_of_int d \<le> 1"
      using r d by (simp add: field_simps)
    ultimately show ?thesis
      by (simp add: x)
  next
    case 3
    then have c: "rne n d = q \<or> rne n d = q + 1"
      by (simp add: rne_def q_def r_def Let_def)
    from 3 have "real_of_int (2 * r) = real_of_int d"
      by simp
    then have "real_of_int d = 2 * real_of_int r"
      by simp
    with d have "real_of_int r / real_of_int d = 1 / 2"
      by simp
    then have x3: "real_of_int n / real_of_int d = real_of_int q + 1 / 2"
      by (simp only: x)
    from c show ?thesis
      unfolding x3 by auto
  qed
qed

lemma rne_nonneg:
  assumes "0 < d" "0 \<le> n"
  shows "0 \<le> rne n d"
proof -
  from assms have "0 \<le> n div d"
    by (simp add: pos_imp_zdiv_nonneg_iff)
  then show ?thesis
    by (simp add: rne_def Let_def)
qed

lemma bitlen_real:
  assumes "0 < n"
  shows "2 powi (bitlen n - 1) \<le> real_of_int n" and "real_of_int n < 2 powi (bitlen n)"
proof -
  from assms have b: "1 \<le> bitlen n"
    by (simp add: bitlen_alt_def)
  from bitlen_bounds[OF assms] have "real_of_int (2 ^ nat (bitlen n - 1)) \<le> real_of_int n"
    and "real_of_int n < real_of_int (2 ^ nat (bitlen n))"
    by (simp_all only: of_int_le_iff of_int_less_iff)
  with b show "2 powi (bitlen n - 1) \<le> real_of_int n" and "real_of_int n < 2 powi (bitlen n)"
    by (simp_all add: power_int_def)
qed

lemma binade_bounds:
  assumes "0 < n" "0 < d"
  shows "2 powi binade n d \<le> real_of_int n / real_of_int d"
    and "real_of_int n / real_of_int d < 2 powi (binade n d + 1)"
proof -
  define k where "k = bitlen n - bitlen d"
  define x where "x = real_of_int n / real_of_int d"
  have d: "0 < real_of_int d" and n: "0 < real_of_int n"
    using assms by simp_all
  have p: "0 < (2::real) powi i" for i
    by simp
  have "x < 2 powi (bitlen n) / 2 powi (bitlen d - 1)"
    unfolding x_def using bitlen_real[OF assms(1)] bitlen_real[OF assms(2)] d n p
    by (intro frac_less) simp_all
  also have "\<dots> = 2 powi (bitlen n - (bitlen d - 1))"
    by (simp only: power_int_diff[of "2::real", simplified])
  also have "bitlen n - (bitlen d - 1) = k + 1"
    by (simp add: k_def)
  finally have up: "x < 2 powi (k + 1)" .
  have "2 powi (bitlen n - 1) / 2 powi (bitlen d) \<le> x"
    unfolding x_def using bitlen_real[OF assms(1)] bitlen_real[OF assms(2)] d n p
    by (intro frac_le) simp_all
  moreover have "2 powi (bitlen n - 1) / 2 powi (bitlen d) = (2::real) powi (bitlen n - 1 - bitlen d)"
    by (simp only: power_int_diff[of "2::real", simplified])
  moreover have "bitlen n - 1 - bitlen d = k - 1"
    by (simp add: k_def)
  ultimately have low: "2 powi (k - 1) \<le> x"
    by simp
  have test: "snd (scaled n d k) \<le> fst (scaled n d k) \<longleftrightarrow> 2 powi k \<le> x"
  proof -
    have "snd (scaled n d k) \<le> fst (scaled n d k) \<longleftrightarrow>
      1 \<le> real_of_int (fst (scaled n d k)) / real_of_int (snd (scaled n d k))"
      using scaled_ratio(1)[OF assms(2), of n k] by simp
    also have "\<dots> \<longleftrightarrow> 1 \<le> x / 2 powi k"
      by (simp only: scaled_ratio(2)[OF assms(2)] x_def)
    also have "\<dots> \<longleftrightarrow> 2 powi k \<le> x"
      using p[of k] by (simp add: field_simps)
    finally show ?thesis .
  qed
  show "2 powi binade n d \<le> real_of_int n / real_of_int d"
    using test low by (simp add: binade_def Let_def flip: k_def x_def)
  show "real_of_int n / real_of_int d < 2 powi (binade n d + 1)"
    using test up by (simp add: binade_def Let_def flip: k_def x_def)
qed

lemma round_ratio_error:
  assumes "0 < n" "0 < d" "0 < p"
  shows "\<bar>dval (round_ratio p n d) - real_of_int n / real_of_int d\<bar>
           \<le> (real_of_int n / real_of_int d) / 2 ^ p"
    and "0 \<le> fst (round_ratio p n d)"
proof -
  define x where "x = real_of_int n / real_of_int d"
  define s where "s = binade n d - (int p - 1)"
  define a b where "a = fst (scaled n d s)" and "b = snd (scaled n d s)"
  have rr: "round_ratio p n d = (rne a b, s)"
    using assms(1) by (simp add: round_ratio_def a_def b_def s_def Let_def)
  have b: "0 < b" and a: "0 \<le> a"
    using scaled_ratio(1,3)[OF assms(2), of n s] assms(1) by (simp_all add: a_def b_def)
  have ab: "real_of_int a / real_of_int b = x / 2 powi s"
    by (simp add: a_def b_def x_def scaled_ratio(2)[OF assms(2)])
  have ps: "0 < (2::real) powi s"
    by simp
  have "\<bar>dval (round_ratio p n d) - x\<bar> = \<bar>real_of_int (rne a b) - x / 2 powi s\<bar> * 2 powi s"
  proof -
    have "dval (round_ratio p n d) - x = (real_of_int (rne a b) - x / 2 powi s) * 2 powi s"
      by (simp add: rr dval_def field_simps)
    then show ?thesis
      by (simp add: abs_mult)
  qed
  also have "\<dots> \<le> (1 / 2) * 2 powi s"
    using rne_near[OF b, of a] ps by (intro mult_right_mono) (simp_all add: ab)
  also have "\<dots> = 2 powi binade n d / 2 ^ p"
  proof -
    have "(2::real) powi s = 2 powi binade n d / 2 powi (int p - 1)"
      by (simp only: s_def power_int_diff[of "2::real", simplified])
    moreover have "(2::real) powi (int p - 1) = 2 ^ (p - 1)"
      using assms(3) by (simp add: power_int_def nat_diff_distrib)
    moreover have "(2::real) ^ p = 2 * 2 ^ (p - 1)"
      using assms(3) by (cases p) simp_all
    ultimately show ?thesis
      by simp
  qed
  also have "\<dots> \<le> x / 2 ^ p"
  proof -
    have "2 powi binade n d \<le> x"
      using binade_bounds(1)[OF assms(1,2)] by (simp add: x_def)
    then show ?thesis
      by (rule divide_right_mono) simp
  qed
  finally show "\<bar>dval (round_ratio p n d) - real_of_int n / real_of_int d\<bar>
           \<le> (real_of_int n / real_of_int d) / 2 ^ p"
    by (simp add: x_def)
  show "0 \<le> fst (round_ratio p n d)"
    using rne_nonneg[OF b a] by (simp add: rr)
qed

lemma trunc_floor:
  assumes "0 \<le> fst v"
  shows "trunc v = \<lfloor>dval v\<rfloor>"
proof (cases "0 \<le> snd v")
  case True
  then have "dval v = real_of_int (fst v * 2 ^ nat (snd v))"
    by (simp add: dval_def power_int_def)
  then have "\<lfloor>dval v\<rfloor> = fst v * 2 ^ nat (snd v)"
    by (simp only: floor_of_int)
  with True show ?thesis
    by (simp add: trunc_def)
next
  case False
  then have "dval v = real_of_int (fst v) / real_of_int (2 ^ nat (- snd v))"
    by (simp add: dval_def power_int_def field_simps)
  then have "\<lfloor>dval v\<rfloor> = fst v div 2 ^ nat (- snd v)"
    by (simp only: floor_divide_of_int_eq)
  with False show ?thesis
    by (simp add: trunc_def)
qed

text \<open>The product of line 27 is within 1/60 of the exact value of \<open>rate * buffer / 30\<close>.\<close>

lemma dval_pos_fst:
  assumes "0 < dval v"
  shows "0 < fst v"
proof (rule ccontr)
  assume "\<not> 0 < fst v"
  then have "real_of_int (fst v) \<le> 0" by simp
  moreover have "0 \<le> (2::real) powi snd v" by simp
  ultimately have "dval v \<le> 0"
    unfolding dval_def by (rule mult_nonpos_nonneg)
  with assms show False by simp
qed

lemma buffer_value:
  assumes "0 \<le> f" "f \<le> 255" "0 \<le> b" "b \<le> 255"
  shows "0 \<le> fst (double_mult (double_div f 30) b)"
    and "\<bar>dval (double_mult (double_div f 30) b) - real_of_int (f * b) / 30\<bar> \<le> 1 / 60"
proof -
  let ?c = "double_div f 30" and ?v = "double_mult (double_div f 30) b"
  have "0 \<le> fst ?v \<and> \<bar>dval ?v - real_of_int (f * b) / 30\<bar> \<le> 1 / 60"
  proof (cases "f = 0 \<or> b = 0")
    case True
    then have "fst ?c * b = 0"
      by (auto simp: double_div_def round_ratio_def)
    then have "?v = (0, 0)"
      by (simp add: double_mult_def scaled_def round_ratio_def)
    with True show ?thesis
      by (auto simp: dval_def)
  next
    case False
    with assms have f: "0 < f" and b: "0 < b" by simp_all
    define x where "x = real_of_int f / 30"
    define eps where "eps = (1::real) / 2 ^ 53"
    define u where "u = dval ?c"
    have x: "0 < x" using f by (simp add: x_def)
    have e1: "\<bar>u - x\<bar> \<le> x * eps"
      using round_ratio_error(1)[of f 30 53] f by (simp add: u_def x_def eps_def double_div_def)
    have "x * eps < x"
      using x by (simp add: eps_def)
    with e1 have u: "0 < u" by linarith
    then have c: "0 < fst ?c"
      unfolding u_def by (rule dval_pos_fst)
    define N D where "N = fst (scaled (fst ?c * b) 1 (- snd ?c))"
      and "D = snd (scaled (fst ?c * b) 1 (- snd ?c))"
    have v: "?v = round_ratio 53 N D"
      by (simp add: double_mult_def N_def D_def)
    from c b have "0 < fst ?c * b" by simp
    then have N: "0 < N" and D: "0 < D"
      using scaled_ratio(1,4)[of 1 "fst ?c * b" "- snd ?c"] by (simp_all add: N_def D_def)
    have ND: "real_of_int N / real_of_int D = u * real_of_int b"
    proof -
      have "real_of_int N / real_of_int D = (real_of_int (fst ?c * b) / real_of_int 1) / 2 powi (- snd ?c)"
        unfolding N_def D_def by (rule scaled_ratio(2)) simp
      also have "\<dots> = real_of_int (fst ?c) * 2 powi (snd ?c) * real_of_int b"
        by (simp add: power_int_minus field_simps)
      finally show ?thesis
        by (simp add: u_def dval_def)
    qed
    have e2: "\<bar>dval ?v - u * real_of_int b\<bar> \<le> u * real_of_int b * eps"
      using round_ratio_error(1)[OF N D, of 53] by (simp add: v ND eps_def)
    have fst: "0 \<le> fst ?v"
      using round_ratio_error(2)[OF N D, of 53] by (simp add: v)
    define X where "X = real_of_int (f * b) / 30"
    have Xx: "X = x * real_of_int b"
      by (simp add: X_def x_def)
    have rb: "0 < real_of_int b" using b by simp
    have "\<bar>u * real_of_int b - X\<bar> = \<bar>u - x\<bar> * real_of_int b"
      using rb by (simp add: Xx abs_mult flip: left_diff_distrib)
    also have "\<dots> \<le> x * eps * real_of_int b"
      using e1 rb by (intro mult_right_mono) simp_all
    finally have e3: "\<bar>u * real_of_int b - X\<bar> \<le> X * eps"
      by (simp add: Xx mult_ac)
    have eps: "0 < eps" by (simp add: eps_def)
    have X0: "0 \<le> X" using assms by (simp add: X_def)
    have "real_of_int (f * b) \<le> real_of_int (255 * 255)"
      using assms by (intro of_int_le_iff[THEN iffD2] mult_mono) simp_all
    then have Xmax: "X \<le> 2168" by (simp add: X_def)
    from e3 have "u * real_of_int b \<le> X + X * eps" by linarith
    then have "u * real_of_int b * eps \<le> (X + X * eps) * eps"
      using eps by (intro mult_right_mono) simp_all
    with e2 e3 have "\<bar>dval ?v - X\<bar> \<le> X * eps + (X + X * eps) * eps"
      by linarith
    also have "\<dots> = X * (2 * eps + eps * eps)"
      by (simp add: algebra_simps)
    also have "\<dots> \<le> 2168 * (2 * eps + eps * eps)"
      using Xmax eps by (intro mult_right_mono) simp_all
    also have "\<dots> \<le> 1 / 60"
      by (simp add: eps_def)
    finally show ?thesis
      using fst by (simp add: X_def)
  qed
  then show "0 \<le> fst ?v" and "\<bar>dval ?v - real_of_int (f * b) / 30\<bar> \<le> 1 / 60"
    by simp_all
qed

lemma floor_near_quotient:
  fixes X :: int and y :: real
  assumes "\<bar>y - real_of_int X / 30\<bar> \<le> 1 / 60"
  shows "\<lfloor>y\<rfloor> = X div 30 \<or> (30 dvd X \<and> \<lfloor>y\<rfloor> = X div 30 - 1)"
proof -
  define q j where "q = X div 30" and "j = X mod 30"
  have X: "X = 30 * q + j" and j: "0 \<le> j" "j < 30"
    by (simp_all add: q_def j_def)
  have Xr: "real_of_int X / 30 = real_of_int q + real_of_int j / 30"
    by (simp add: X)
  from assms have a: "\<bar>y - (real_of_int q + real_of_int j / 30)\<bar> \<le> 1 / 60"
    by (simp only: Xr)
  show ?thesis
  proof (cases "j = 0")
    case True
    then have "30 dvd X"
      by (simp add: j_def dvd_eq_mod_eq_0)
    moreover from True have "real_of_int j = 0"
      by simp
    with a have "real_of_int q - 1 \<le> y" "y < real_of_int q + 1"
      by linarith+
    then have "\<lfloor>y\<rfloor> = q \<or> \<lfloor>y\<rfloor> = q - 1"
      by (cases "y < real_of_int q") (simp_all add: floor_eq_iff)
    ultimately show ?thesis
      by (auto simp: q_def)
  next
    case False
    with j have "1 \<le> j" "j \<le> 29" by simp_all
    then have "1 \<le> real_of_int j" "real_of_int j \<le> 29"
      by simp_all
    with a have "real_of_int q \<le> y" "y < real_of_int q + 1"
      by linarith+
    then have "\<lfloor>y\<rfloor> = q"
      by (simp add: floor_eq_iff)
    then show ?thesis
      by (simp add: q_def)
  qed
qed

lemma buffer_size_Some:
  assumes "buffer_size rate buffer = Some k"
  shows "uint k = uint rate * uint buffer div 30 \<or>
         (30 dvd uint rate * uint buffer \<and> uint k = uint rate * uint buffer div 30 - 1)"
proof -
  let ?v = "double_mult (double_div (uint rate) 30) (uint buffer)"
  have r: "0 \<le> uint rate" "uint rate \<le> 255" "0 \<le> uint buffer" "uint buffer \<le> 255"
    using uint_bounded[of rate] uint_bounded[of buffer] by simp_all
  note bv = buffer_value[OF r]
  have t: "trunc ?v = \<lfloor>dval ?v\<rfloor>"
    using bv(1) by (rule trunc_floor)
  have "0 \<le> dval ?v"
    using bv(1) by (simp add: dval_def)
  then have t0: "0 \<le> trunc ?v"
    by (simp add: t)
  from assms have t255: "trunc ?v \<le> 255" and k: "k = word_of_int (trunc ?v)"
    by (auto simp: buffer_size_def cast_uint8_def split: if_splits)
  from t0 t255 have "uint k = trunc ?v"
    by (simp add: k uint_word_of_int take_bit_int_eq_self)
  with floor_near_quotient[OF bv(2)] t show ?thesis
    by simp
qed

text \<open>
  C3, amended. The constructor sets \<^verbatim>\<open>_max_time_lost\<close> to \<^verbatim>\<open>_buffer_size\<close>, the
  integral part of \<^verbatim>\<open>frame_rate / 30.0 * track_buffer\<close> computed in \<^verbatim>\<open>double\<close>: the
  value is cut off, not rounded. It is the integer quotient of
  \<open>frame_rate * track_buffer\<close> by 30, or, in some cases where 30 divides the
  product and the rounded division leaves the \<^verbatim>\<open>double\<close> just below the exact
  quotient, one less. (The construction is undefined where the integral part exceeds
  255.)
\<close>

theorem max_time_lost_truncates:
  assumes "BoTSORT_ctor c = Some bt"
  shows "m_max_time_lost bt = m_buffer_size bt \<and>
         buffer_size (frame_rate c) (track_buffer c) = Some (m_buffer_size bt) \<and>
         (uint (m_max_time_lost bt) = uint (frame_rate c) * uint (track_buffer c) div 30 \<or>
          (30 dvd uint (frame_rate c) * uint (track_buffer c) \<and>
           uint (m_max_time_lost bt) = uint (frame_rate c) * uint (track_buffer c) div 30 - 1))"
proof -
  from assms obtain k where k: "buffer_size (frame_rate c) (track_buffer c) = Some k"
    and "m_buffer_size bt = k" "m_max_time_lost bt = k"
    by (auto simp: BoTSORT_ctor_def split: option.splits)
  with buffer_size_Some[OF k] show ?thesis
    by simp
qed

theorem max_time_lost_truncates_witness:
  "BoTSORT_ctor (sample_config\<lparr>frame_rate := 25\<rparr>)
     = Some (sample_tracker\<lparr>m_frame_rate := 25, m_buffer_size := 25, m_max_time_lost := 25,
               m_kalman_filter := KalmanFilter_ctor 25\<rparr>) \<and>
   uint (25 :: 8 word) = uint (25 :: 8 word) * uint (30 :: 8 word) div 30"
proof -
  have c: "BoTSORT_ctor (sample_config\<lparr>frame_rate := 25\<rparr>)
     = Some (sample_tracker\<lparr>m_frame_rate := 25, m_buffer_size := 25, m_max_time_lost := 25,
               m_kalman_filter := KalmanFilter_ctor 25\<rparr>)"
    by (simp add: BoTSORT_ctor_def sample_config_def sample_tracker_def round_defs)
  from max_time_lost_truncates[OF c] have "uint (25 :: 8 word) = uint (25 :: 8 word) * uint (30 :: 8 word) div 30"
    by (simp add: sample_config_def)
  with c show ?thesis by simp
qed

text \<open>
  C3 as stated fails: for \<^verbatim>\<open>frame_rate\<close> = 10 and \<^verbatim>\<open>track_buffer\<close> = 5 the exact value
  5/3 rounds to 2, and the constructor stores 1.
\<close>

theorem max_time_lost_not_rounded_counterexample:
  "map_option m_max_time_lost (BoTSORT_ctor (sample_config\<lparr>frame_rate := 10, track_buffer := 5\<rparr>)) = Some 1 \<and>
   round (10 / 30 * 5 :: real) = 2"
  by (simp add: BoTSORT_ctor_def sample_config_def round_defs round_def)

text \<open>
  The second case of the amended statement occurs: at 123 frames per second a buffer
  of 30 gives 122, since \<^verbatim>\<open>123 / 30.0 * 30\<close> is \<^verbatim>\<open>122.99999999999999\<close>.
\<close>

lemma max_time_lost_one_less:
  "map_option m_max_time_lost (BoTSORT_ctor (sample_config\<lparr>frame_rate := 123\<rparr>)) = Some 122"
  by (simp add: BoTSORT_ctor_def sample_config_def round_defs)

end
